theory Spec2Isabelle
  imports Complex_Main "HOL-Library.Char_ord" "HOL-Library.List_Lexorder"
begin

section \<open>Values, messages and exceptions\<close>

text \<open>
  A Python \<open>float\<close> is a double: a finite one, given by its exact rational value, an
  infinity or a NaN (the sign of zero is not kept). A field of a decoded log message is
  a Python \<open>int\<close>, a \<open>float\<close> or a string; the integers of a log are at most 64 bits wide.
  Strings are ordered as Python orders them, lexicographically by character code.
\<close>

datatype pyfloat = Fin rat | PosInf | NegInf | NaN

datatype pyval = PInt int | PFloat pyfloat | PStr string

datatype py_error =
    AttributeError string
  | TypeError
  | ValueError
  | OSError

subsection \<open>Rounding to a double\<close>

text \<open>The nearest integer, a tie going to the even neighbour.\<close>

definition round_half_even :: "rat \<Rightarrow> int" where
  "round_half_even x =
     (let f = \<lfloor>x\<rfloor>; d = x - of_int f
      in if d < 1 / 2 then f
         else if 1 / 2 < d then f + 1
         else if even f then f else f + 1)"

definition pow2 :: "int \<Rightarrow> rat" where
  "pow2 e = (if 0 \<le> e then 2 ^ nat e else 1 / 2 ^ nat (- e))"

text \<open>
  \<open>scale_round e x\<close> rounds the positive number \<open>x * 2^e\<close> to 53 significant bits: \<open>x\<close>
  is halved or doubled, and \<open>e\<close> adjusted, until \<open>2^52 \<le> x < 2^53\<close> or the smallest
  exponent of a double, \<open>-1074\<close>, is reached; then \<open>x\<close> is rounded to an integer.
\<close>

function scale_round :: "int \<Rightarrow> rat \<Rightarrow> rat" where
  "scale_round e x =
     (if 2 ^ 53 \<le> x then scale_round (e + 1) (x / 2)
      else if x < 2 ^ 52 \<and> - 1074 < e then scale_round (e - 1) (x * 2)
      else of_int (round_half_even x) * pow2 e)"
  by pat_completeness auto
termination
proof (relation "measures [\<lambda>(e, x). nat \<lfloor>x / 2 ^ 53\<rfloor>, \<lambda>(e, x). nat (e + 1074)]")
  show "wf (measures [\<lambda>(e, x). nat \<lfloor>x / 2 ^ 53\<rfloor>, \<lambda>(e, x :: rat). nat (e + 1074)])"
    by simp
next
  fix e :: int and x :: rat
  assume a: "2 ^ 53 \<le> x"
  define y where "y = x / 2 ^ 53"
  from a have "1 \<le> y" by (simp add: y_def)
  then have f1: "1 \<le> \<lfloor>y\<rfloor>" by simp
  have "of_int \<lfloor>y / 2\<rfloor> \<le> y / 2" by (rule of_int_floor_le)
  moreover have "y < of_int \<lfloor>y\<rfloor> + 1" by linarith
  ultimately have "(of_int (2 * \<lfloor>y / 2\<rfloor>) :: rat) < of_int (\<lfloor>y\<rfloor> + 1)" by simp
  then have "2 * \<lfloor>y / 2\<rfloor> < \<lfloor>y\<rfloor> + 1" by (simp only: of_int_less_iff)
  with f1 have "nat \<lfloor>y / 2\<rfloor> < nat \<lfloor>y\<rfloor>" by linarith
  moreover have "x / 2 / 2 ^ 53 = y / 2" by (simp add: y_def)
  ultimately have "nat \<lfloor>x / 2 / 2 ^ 53\<rfloor> < nat \<lfloor>x / 2 ^ 53\<rfloor>" by (simp add: y_def)
  then show "((e + 1, x / 2), (e, x)) \<in>
      measures [\<lambda>(e, x). nat \<lfloor>x / 2 ^ 53\<rfloor>, \<lambda>(e, x). nat (e + 1074)]"
    by simp
next
  fix e :: int and x :: rat
  assume "\<not> 2 ^ 53 \<le> x" and b: "x < 2 ^ 52 \<and> - 1074 < e"
  have "\<lfloor>x * 2 / 2 ^ 53\<rfloor> \<le> 0"
  proof -
    from b have "x * 2 / 2 ^ 53 < 1" by simp
    then show ?thesis by (simp add: floor_le_iff)
  qed
  moreover have "x \<le> x * 2 \<or> \<lfloor>x / 2 ^ 53\<rfloor> \<le> 0"
  proof (cases "0 \<le> x")
    case True
    then show ?thesis by simp
  next
    case False
    then have "x / 2 ^ 53 < 1" by (simp add: divide_less_eq)
    then show ?thesis by (simp add: floor_le_iff)
  qed
  ultimately have "nat \<lfloor>x * 2 / 2 ^ 53\<rfloor> \<le> nat \<lfloor>x / 2 ^ 53\<rfloor>" by linarith
  with b show "((e - 1, x * 2), (e, x)) \<in>
      measures [\<lambda>(e, x). nat \<lfloor>x / 2 ^ 53\<rfloor>, \<lambda>(e, x). nat (e + 1074)]"
    by auto
qed

declare scale_round.simps [simp del]

text \<open>
  The double nearest to a rational, a tie going to the even significand, as the
  conversions of Python round (\<open>float(n)\<close>, \<open>float(Fraction)\<close>, the result of \<open>/\<close>).
  Overflow does not arise for the numbers of a log: no operation of the program leaves
  the range of the doubles.
\<close>

definition nearest_double :: "rat \<Rightarrow> rat" where
  "nearest_double x =
     (if x = 0 then 0
      else if 0 < x then scale_round 0 x
      else - scale_round 0 (- x))"

subsection \<open>Messages\<close>

text \<open>
  A message as \<open>recv_match\<close> of the log reader returns it: the name that
  \<open>get_type()\<close> gives and the named fields that attribute access reads.
\<close>

record msg =
  mtype :: string
  attrs :: "(string \<times> pyval) list"

definition get_type :: "msg \<Rightarrow> string" where
  "get_type m = mtype m"

definition hasattr :: "msg \<Rightarrow> string \<Rightarrow> bool" where
  "hasattr m name = (map_of (attrs m) name \<noteq> None)"

text \<open>\<open>msg.name\<close>: raises \<open>AttributeError\<close> when the message has no such field.\<close>

definition getattr :: "msg \<Rightarrow> string \<Rightarrow> py_error + pyval" where
  "getattr m name =
     (case map_of (attrs m) name of
        None \<Rightarrow> Inl (AttributeError name)
      | Some v \<Rightarrow> Inr v)"

text \<open>\<open>msg.name if hasattr(msg, 'name') else None\<close>\<close>

definition optattr :: "msg \<Rightarrow> string \<Rightarrow> pyval option" where
  "optattr m name =
     (if hasattr m name
      then (case getattr m name of Inr v \<Rightarrow> Some v | Inl e \<Rightarrow> None)
      else None)"

subsection \<open>Arithmetic and comparison of Python\<close>

text \<open>
  \<open>x / 1e6\<close>: an \<open>int\<close> is first converted to the nearest double, the quotient of two
  doubles is the double nearest to the exact quotient, an infinity or a NaN stays; a
  string operand raises.
\<close>

fun truediv_1e6 :: "pyval \<Rightarrow> py_error + pyfloat" where
  "truediv_1e6 (PInt t) = Inr (Fin (nearest_double (nearest_double (of_int t) / 1000000)))"
| "truediv_1e6 (PFloat (Fin a)) = Inr (Fin (nearest_double (a / 1000000)))"
| "truediv_1e6 (PFloat PosInf) = Inr PosInf"
| "truediv_1e6 (PFloat NegInf) = Inr NegInf"
| "truediv_1e6 (PFloat NaN) = Inr NaN"
| "truediv_1e6 (PStr s) = Inl TypeError"

text \<open>\<open>a < b\<close> on floats: every comparison with a NaN is false.\<close>

fun float_less :: "pyfloat \<Rightarrow> pyfloat \<Rightarrow> bool" where
  "float_less (Fin a) (Fin b) = (a < b)"
| "float_less (Fin a) PosInf = True"
| "float_less (Fin a) NegInf = False"
| "float_less (Fin a) NaN = False"
| "float_less PosInf b = False"
| "float_less NegInf (Fin b) = True"
| "float_less NegInf PosInf = True"
| "float_less NegInf NegInf = False"
| "float_less NegInf NaN = False"
| "float_less NaN b = False"

text \<open>
  The value a number is compared by: Python compares an \<open>int\<close> and a \<open>float\<close> by their
  exact values.
\<close>

fun number :: "pyval \<Rightarrow> pyfloat option" where
  "number (PInt i) = Some (Fin (of_int i))"
| "number (PFloat f) = Some f"
| "number (PStr s) = None"

text \<open>
  Python's \<open>x < y\<close> and \<open>x > y\<close> on field values: numbers with numbers, strings with
  strings, \<open>TypeError\<close> otherwise.
\<close>

fun py_lt :: "pyval \<Rightarrow> pyval \<Rightarrow> py_error + bool" where
  "py_lt (PStr a) (PStr b) = Inr (a < b)"
| "py_lt x y =
     (case (number x, number y) of
        (Some a, Some b) \<Rightarrow> Inr (float_less a b)
      | _ \<Rightarrow> Inl TypeError)"

definition py_gt :: "pyval \<Rightarrow> pyval \<Rightarrow> py_error + bool" where
  "py_gt x y = py_lt y x"

text \<open>
  \<open>max(xs)\<close> and \<open>min(xs)\<close> on a non-empty list: the running extreme is replaced by
  an item that is strictly greater (smaller), so the first extreme item is kept.
\<close>

fun max_from :: "pyval \<Rightarrow> pyval list \<Rightarrow> py_error + pyval" where
  "max_from cur [] = Inr cur"
| "max_from cur (x # xs) =
     (case py_gt x cur of
        Inl e \<Rightarrow> Inl e
      | Inr b \<Rightarrow> max_from (if b then x else cur) xs)"

fun min_from :: "pyval \<Rightarrow> pyval list \<Rightarrow> py_error + pyval" where
  "min_from cur [] = Inr cur"
| "min_from cur (x # xs) =
     (case py_lt x cur of
        Inl e \<Rightarrow> Inl e
      | Inr b \<Rightarrow> min_from (if b then x else cur) xs)"

definition py_max :: "pyval list \<Rightarrow> py_error + pyval" where
  "py_max xs = (case xs of [] \<Rightarrow> Inl ValueError | x # rest \<Rightarrow> max_from x rest)"

definition py_min :: "pyval list \<Rightarrow> py_error + pyval" where
  "py_min xs = (case xs of [] \<Rightarrow> Inl ValueError | x # rest \<Rightarrow> min_from x rest)"

text \<open>
  \<open>statistics.mean\<close>. The data are summed exactly, as fractions; infinities and NaNs are
  summed apart, as floats, and when there is one their sum is the result. Otherwise the
  exact sum is divided by the number of data and converted to the type of the data: to
  the nearest double when a \<open>float\<close> is among them or the quotient is not an integer, to
  an \<open>int\<close> otherwise. A string in the data raises \<open>TypeError\<close>, empty data raise
  \<open>StatisticsError\<close> (a \<open>ValueError\<close>).
\<close>

fun is_str :: "pyval \<Rightarrow> bool" where
  "is_str (PStr s) = True"
| "is_str v = False"

fun is_int :: "pyval \<Rightarrow> bool" where
  "is_int (PInt i) = True"
| "is_int v = False"

fun finite_value :: "pyval \<Rightarrow> rat" where
  "finite_value (PInt i) = of_int i"
| "finite_value (PFloat (Fin a)) = a"
| "finite_value v = 0"

text \<open>The sum of two floats of which none is finite.\<close>

fun add_special :: "pyfloat \<Rightarrow> pyfloat \<Rightarrow> pyfloat" where
  "add_special PosInf PosInf = PosInf"
| "add_special NegInf NegInf = NegInf"
| "add_special a b = NaN"

fun special_sum :: "pyval list \<Rightarrow> pyfloat option \<Rightarrow> pyfloat option" where
  "special_sum [] acc = acc"
| "special_sum (PFloat (Fin a) # xs) acc = special_sum xs acc"
| "special_sum (PFloat f # xs) acc =
     special_sum xs (Some (case acc of None \<Rightarrow> f | Some g \<Rightarrow> add_special g f))"
| "special_sum (v # xs) acc = special_sum xs acc"

definition exact_sum :: "pyval list \<Rightarrow> rat" where
  "exact_sum xs = sum_list (map finite_value xs)"

definition statistics_mean :: "pyval list \<Rightarrow> py_error + pyval" where
  "statistics_mean xs =
     (if xs = [] then Inl ValueError
      else if list_ex is_str xs then Inl TypeError
      else (case special_sum xs None of
              Some f \<Rightarrow> Inr (PFloat f)
            | None \<Rightarrow>
                let q = exact_sum xs / of_nat (length xs)
                in if list_all is_int xs \<and> of_int \<lfloor>q\<rfloor> = q then Inr (PInt \<lfloor>q\<rfloor>)
                   else Inr (PFloat (Fin (nearest_double q)))))"

text \<open>
  \<open>round(x, 2)\<close>: an \<open>int\<close> is returned as it is; a finite float is rounded to two
  decimals, a tie to the even neighbour, and the decimal converted to the nearest
  double; an infinity or a NaN is returned as it is; a string raises.
\<close>

definition round2 :: "rat \<Rightarrow> rat" where
  "round2 a = nearest_double (of_int (round_half_even (a * 100)) / 100)"

fun py_round2 :: "pyval \<Rightarrow> py_error + pyval" where
  "py_round2 (PInt i) = Inr (PInt i)"
| "py_round2 (PFloat (Fin a)) = Inr (PFloat (Fin (round2 a)))"
| "py_round2 (PFloat f) = Inr (PFloat f)"
| "py_round2 (PStr s) = Inl TypeError"

section \<open>Battery.py\<close>

text \<open>The dictionary appended to \<open>battery_data\<close> for one BAT message.\<close>

record battery_record =
  timestamp :: pyfloat
  Volt :: pyval
  VoltR :: "pyval option"
  Curr :: pyval
  CurrTot :: "pyval option"
  EnrgTot :: "pyval option"
  Temp :: "pyval option"
  Res :: "pyval option"
  RemPct :: "pyval option"
  H :: "pyval option"
  SH :: "pyval option"

text \<open>
  The body of the \<open>if msg_type == "BAT"\<close> branch: \<open>voltage = msg.Volt\<close> is read first,
  then the dictionary is built in the order of its keys. The result is the voltage
  appended to \<open>voltages\<close> and the record appended to \<open>battery_data\<close>.
\<close>

definition bat_entry :: "msg \<Rightarrow> py_error + (pyval \<times> battery_record)" where
  "bat_entry m =
     (case getattr m ''Volt'' of
        Inl e \<Rightarrow> Inl e
      | Inr voltage \<Rightarrow>
     (case getattr m ''TimeUS'' of
        Inl e \<Rightarrow> Inl e
      | Inr t \<Rightarrow>
     (case truediv_1e6 t of
        Inl e \<Rightarrow> Inl e
      | Inr ts \<Rightarrow>
     (case getattr m ''Curr'' of
        Inl e \<Rightarrow> Inl e
      | Inr c \<Rightarrow>
          Inr (voltage,
               \<lparr> timestamp = ts,
                 Volt = voltage,
                 VoltR = optattr m ''VoltR'',
                 Curr = c,
                 CurrTot = optattr m ''CurrTot'',
                 EnrgTot = optattr m ''EnrgTot'',
                 Temp = optattr m ''Temp'',
                 Res = optattr m ''Res'',
                 RemPct = optattr m ''RemPct'',
                 H = optattr m ''H'',
                 SH = optattr m ''SH'' \<rparr>)))))"

text \<open>
  The \<open>while True\<close> loop over the messages of the log, with the two lists it appends to
  as accumulators. The log reader returns \<open>None\<close> after the last message.
\<close>

fun battery_loop ::
  "msg list \<Rightarrow> battery_record list \<Rightarrow> pyval list \<Rightarrow>
     py_error + (battery_record list \<times> pyval list)" where
  "battery_loop [] battery_data voltages = Inr (battery_data, voltages)"
| "battery_loop (m # ms) battery_data voltages =
     (if get_type m = ''BAT''
      then (case bat_entry m of
              Inl e \<Rightarrow> Inl e
            | Inr (voltage, r) \<Rightarrow> battery_loop ms (battery_data @ [r]) (voltages @ [voltage]))
      else battery_loop ms battery_data voltages)"

text \<open>\<open>f(voltages) if voltages else None\<close>\<close>

definition if_nonempty ::
  "(pyval list \<Rightarrow> py_error + pyval) \<Rightarrow> pyval list \<Rightarrow> py_error + pyval option" where
  "if_nonempty f voltages =
     (if voltages \<noteq> []
      then (case f voltages of Inl e \<Rightarrow> Inl e | Inr v \<Rightarrow> Inr (Some v))
      else Inr None)"

record battery_result =
  battery_data :: "battery_record list"
  max_voltage :: "pyval option"
  min_voltage :: "pyval option"
  mean_voltage :: "pyval option"

text \<open>The three aggregates, computed in the order of the source.\<close>

definition battery_metrics ::
  "battery_record list \<Rightarrow> pyval list \<Rightarrow> py_error + battery_result" where
  "battery_metrics bd voltages =
     (case if_nonempty py_max voltages of
        Inl e \<Rightarrow> Inl e
      | Inr mx \<Rightarrow>
     (case if_nonempty py_min voltages of
        Inl e \<Rightarrow> Inl e
      | Inr mn \<Rightarrow>
     (case if_nonempty statistics_mean voltages of
        Inl e \<Rightarrow> Inl e
      | Inr mean \<Rightarrow>
          Inr \<lparr> battery_data = bd, max_voltage = mx, min_voltage = mn,
                mean_voltage = mean \<rparr>)))"

text \<open>
  The log reader is a library: \<open>mavlink_connection\<close> maps the path of a log file to
  the messages that \<open>recv_match\<close> returns one after the other, or raises. The function
  re-raises every exception of its body.
\<close>

type_synonym mavlink = "string \<Rightarrow> py_error + msg list"

definition process_battery_data :: "mavlink \<Rightarrow> string \<Rightarrow> py_error + battery_result" where
  "process_battery_data mavlink_connection log_path =
     (case mavlink_connection log_path of
        Inl e \<Rightarrow> Inl e
      | Inr mlog \<Rightarrow>
     (case battery_loop mlog [] [] of
        Inl e \<Rightarrow> Inl e
      | Inr (bd, voltages) \<Rightarrow> battery_metrics bd voltages))"

section \<open>main.py\<close>

subsection \<open>The environment of the server\<close>

text \<open>
  What a JSON file under \<open>processed_data\<close> holds: the text that \<open>json.dump\<close> wrote for
  a value, which \<open>json.load\<close> reads back as that value, or text that is not JSON.
\<close>

datatype 'd json_file = Json 'd | Corrupt

text \<open>What happens when a file is opened for writing and a value is dumped into it.\<close>

datatype write_outcome = Write_ok | Open_fails | Dump_fails

text \<open>
  The world outside the program, passed through every function that has an effect:
  \<^item> \<open>files\<close>: the files under the storage directory, by path;
  \<^item> \<open>write_outcome\<close>: whether writing a path succeeds;
  \<^item> \<open>remove_ok p n\<close>: whether \<open>os.remove(p)\<close> succeeds when it is the call number \<open>n\<close>
    of \<open>os.remove\<close> (counted from 0), \<open>removes\<close>: the calls of \<open>os.remove\<close> so far;
  \<^item> \<open>sleeps\<close>: the calls of \<open>time.sleep\<close> so far;
  \<^item> \<open>cleanup_calls\<close>: the calls of \<open>safe_remove_file\<close> so far;
  \<^item> \<open>clock n\<close>: what call number \<open>n\<close> of \<open>time.time()\<close> returns, \<open>time_calls\<close>: the
    number of calls so far;
  \<^item> \<open>temp_save\<close>: the name of the temporary file the upload is saved to, or the
    exception raised while saving;
  \<^item> \<open>mavlink_connection\<close>: the log reader.
\<close>

record 'd world =
  files :: "string \<rightharpoonup> 'd json_file"
  write_outcome :: "string \<Rightarrow> write_outcome"
  remove_ok :: "string \<Rightarrow> nat \<Rightarrow> bool"
  removes :: "string list"
  sleeps :: "rat list"
  cleanup_calls :: "string list"
  clock :: "nat \<Rightarrow> rat"
  time_calls :: nat
  temp_save :: "py_error + string"
  mavlink_connection :: mavlink

definition os_remove :: "'d world \<Rightarrow> string \<Rightarrow> bool \<times> 'd world" where
  "os_remove w file_path =
     (remove_ok w file_path (length (removes w)),
      w\<lparr>removes := removes w @ [file_path]\<rparr>)"

text \<open>\<open>time.sleep\<close> raises \<open>ValueError\<close> for a negative length.\<close>

definition time_sleep :: "'d world \<Rightarrow> rat \<Rightarrow> py_error + 'd world" where
  "time_sleep w delay =
     (if delay < 0 then Inl ValueError else Inr (w\<lparr>sleeps := sleeps w @ [delay]\<rparr>))"

definition time_time :: "'d world \<Rightarrow> rat \<times> 'd world" where
  "time_time w = (clock w (time_calls w), w\<lparr>time_calls := Suc (time_calls w)\<rparr>)"

subsection \<open>safe_remove_file\<close>

text \<open>
  The \<open>for attempt in range(retries)\<close> loop, by the number of iterations left. An
  exception of \<open>os.remove\<close> is caught; one of \<open>time.sleep\<close>, raised inside the handler,
  is not. After the loop the function returns \<open>False\<close>.
\<close>

fun remove_attempts ::
  "nat \<Rightarrow> 'd world \<Rightarrow> string \<Rightarrow> rat \<Rightarrow> (py_error + bool) \<times> 'd world" where
  "remove_attempts 0 w file_path delay = (Inr False, w)"
| "remove_attempts (Suc n) w file_path delay =
     (case os_remove w file_path of
        (True, w1) \<Rightarrow> (Inr True, w1)
      | (False, w1) \<Rightarrow>
          (case time_sleep w1 delay of
             Inl e \<Rightarrow> (Inl e, w1)
           | Inr w2 \<Rightarrow> remove_attempts n w2 file_path delay))"

text \<open>\<open>range(retries)\<close> is empty when \<open>retries\<close> is zero or negative.\<close>

definition safe_remove_file ::
  "'d world \<Rightarrow> string \<Rightarrow> int \<Rightarrow> rat \<Rightarrow> (py_error + bool) \<times> 'd world" where
  "safe_remove_file w file_path retries delay =
     remove_attempts (nat retries)
       (w\<lparr>cleanup_calls := cleanup_calls w @ [file_path]\<rparr>) file_path delay"

definition default_retries :: int where
  "default_retries = 1"

definition default_delay :: rat where
  "default_delay = 0.5"

subsection \<open>save_processed_data and get_stored_data\<close>

definition DATA_STORAGE_DIR :: string where
  "DATA_STORAGE_DIR = ''processed_data''"

text \<open>
  \<open>os.path.join(DATA_STORAGE_DIR, f"{key}.json")\<close> on POSIX: a second component that
  starts with a slash replaces the first.
\<close>

definition data_path :: "string \<Rightarrow> string" where
  "data_path key =
     (let name = key @ ''.json''
      in if take 1 name = ''/'' then name else DATA_STORAGE_DIR @ ''/'' @ name)"

text \<open>
  Every exception is caught and gives \<open>False\<close>. When the file cannot be opened it is
  left as it was; when the dump fails after the file was opened, the file holds a
  truncated text.
\<close>

definition save_processed_data :: "'d world \<Rightarrow> string \<Rightarrow> 'd \<Rightarrow> bool \<times> 'd world" where
  "save_processed_data w key data =
     (let file_path = data_path key
      in case write_outcome w file_path of
           Write_ok \<Rightarrow> (True, w\<lparr>files := (files w)(file_path \<mapsto> Json data)\<rparr>)
         | Open_fails \<Rightarrow> (False, w)
         | Dump_fails \<Rightarrow> (False, w\<lparr>files := (files w)(file_path \<mapsto> Corrupt)\<rparr>))"

text \<open>
  The body of a JSON response. \<open>Error_exc prefix e\<close> is \<open>{"error": f"{prefix}{str(e)}"}\<close>;
  \<open>Unhandled e\<close> is the answer of the framework to an exception that leaves a handler,
  \<open>No_route\<close> its answer to a request that no route matches.
\<close>

datatype 'd body =
    Error string
  | Error_exc string py_error
  | Error_types string "string list"
  | Upload_ok string "battery_record list" "pyval option" "pyval option" "pyval option"
      "string list"
  | Data 'd
  | Unhandled py_error
  | No_route

type_synonym 'd response = "'d body \<times> nat"

definition get_stored_data :: "'d world \<Rightarrow> string \<Rightarrow> 'd response" where
  "get_stored_data w key =
     (let file_path = data_path key
      in case files w file_path of
           None \<Rightarrow> (Error ''Data not found'', 404)
         | Some Corrupt \<Rightarrow> (Error_exc ''Error retrieving data: '' ValueError, 500)
         | Some (Json data) \<Rightarrow> (Data data, 200))"

text \<open>
  \<open>GET /data/<key>\<close>: the route \<open>/data/<key>\<close> matches a path whose last part is not empty
  and holds no slash, and calls \<open>get_stored_data\<close> with it; any other path under \<open>/data/\<close>
  matches no route and is answered by the framework with status 404.
\<close>

definition get_data :: "'d world \<Rightarrow> string \<Rightarrow> 'd response" where
  "get_data w key =
     (if key = [] \<or> CHR ''/'' \<in> set key then (No_route, 404) else get_stored_data w key)"

subsection \<open>upload_bin\<close>

text \<open>
  The request: the filename of the part \<open>file\<close> when there is one, and the query
  arguments. \<open>arg_limit\<close> is the value of
  \<open>request.args.get('limit', default=None, type=int)\<close>: \<open>None\<close> when the argument is
  absent or is not an integer.
\<close>

record request =
  file_part :: "string option"
  arg_key :: "string option"
  arg_limit :: "int option"
  arg_full :: "string option"

record stored_data =
  s_battery_data :: "battery_record list"
  s_max_voltage :: "pyval option"
  s_min_voltage :: "pyval option"
  s_mean_voltage :: "pyval option"
  s_message_types :: "string list"
  s_timestamp :: rat

text \<open>\<open>str.lower()\<close> on the ASCII letters: the other characters stay as they are.\<close>

definition lower_char :: "char \<Rightarrow> char" where
  "lower_char c =
     (case map_of (zip ''ABCDEFGHIJKLMNOPQRSTUVWXYZ'' ''abcdefghijklmnopqrstuvwxyz'') c of
        Some l \<Rightarrow> l
      | None \<Rightarrow> c)"

definition lower :: "string \<Rightarrow> string" where
  "lower s = map lower_char s"

text \<open>\<open>str(n)\<close> of an integer: its decimal digits, with a sign when negative.\<close>

definition digit_char :: "nat \<Rightarrow> char" where
  "digit_char d = ''0123456789'' ! d"

function str_nat :: "nat \<Rightarrow> string" where
  "str_nat n = (if n < 10 then [digit_char n] else str_nat (n div 10) @ [digit_char (n mod 10)])"
  by pat_completeness auto
termination
  by (relation "measure (\<lambda>n. n)") auto

definition str_int :: "int \<Rightarrow> string" where
  "str_int i = (if i < 0 then CHR ''-'' # str_nat (nat (- i)) else str_nat (nat i))"

text \<open>\<open>int(x)\<close> of a number truncates towards zero.\<close>

definition py_int :: "rat \<Rightarrow> int" where
  "py_int x = (if 0 \<le> x then \<lfloor>x\<rfloor> else \<lceil>x\<rceil>)"

text \<open>\<open>xs[:limit]\<close>: a negative limit counts from the end.\<close>

definition slice_to :: "'a list \<Rightarrow> int \<Rightarrow> 'a list" where
  "slice_to xs limit =
     (if 0 \<le> limit then take (nat limit) xs else take (length xs - nat (- limit)) xs)"

text \<open>\<open>round(v, 2) if v is not None else None\<close>\<close>

definition round_opt :: "pyval option \<Rightarrow> py_error + pyval option" where
  "round_opt v =
     (case v of
        None \<Rightarrow> Inr None
      | Some x \<Rightarrow> (case py_round2 x of Inl e \<Rightarrow> Inl e | Inr y \<Rightarrow> Inr (Some y)))"

text \<open>The first loop of the handler: the set of the type names of all messages.\<close>

fun collect_types :: "msg list \<Rightarrow> string set \<Rightarrow> string set" where
  "collect_types [] message_types = message_types"
| "collect_types (m # ms) message_types = collect_types ms (insert (get_type m) message_types)"

text \<open>\<open>sorted(message_types)\<close>\<close>

definition sorted_types :: "string set \<Rightarrow> string list" where
  "sorted_types message_types = sorted_list_of_set message_types"

text \<open>
  The part of the \<open>try\<close> block after the temporary file has been removed: the answer
  for a log without BAT records, the cut to \<open>limit\<close>, the rounding, the storing.
\<close>

definition respond ::
  "stored_data world \<Rightarrow> request \<Rightarrow> string \<Rightarrow> string set \<Rightarrow> battery_result \<Rightarrow>
     (py_error + stored_data response) \<times> stored_data world" where
  "respond w req key message_types result =
     (if battery_data result = []
      then (Inr (Error_types ''No BAT messages found in the log'' (sorted_types message_types),
                 400), w)
      else
        let limit = arg_limit req;
            full_data =
              (lower (case arg_full req of None \<Rightarrow> ''false'' | Some s \<Rightarrow> s) = ''true'');
            response_data =
              (if full_data \<or> limit = None then battery_data result
               else slice_to (battery_data result) (the limit))
        in case round_opt (max_voltage result) of
             Inl e \<Rightarrow> (Inl e, w)
           | Inr mx \<Rightarrow>
          (case round_opt (min_voltage result) of
             Inl e \<Rightarrow> (Inl e, w)
           | Inr mn \<Rightarrow>
          (case round_opt (mean_voltage result) of
             Inl e \<Rightarrow> (Inl e, w)
           | Inr mean \<Rightarrow>
          (case time_time w of
             (now, w1) \<Rightarrow>
               let stored =
                     \<lparr> s_battery_data = response_data,
                       s_max_voltage = mx,
                       s_min_voltage = mn,
                       s_mean_voltage = mean,
                       s_message_types = sorted_types message_types,
                       s_timestamp = now \<rparr>
               in case save_processed_data w1 key stored of
                    (False, w2) \<Rightarrow> (Inr (Error ''Failed to save processed data'', 500), w2)
                  | (True, w2) \<Rightarrow>
                      (Inr (Upload_ok key response_data (s_max_voltage stored)
                              (s_min_voltage stored) (s_mean_voltage stored)
                              (s_message_types stored), 200), w2)))))"

text \<open>
  The \<open>try\<close> block: read the log for its message types, process the battery data,
  remove the temporary file, answer. \<open>Inl e\<close> is an exception that reaches the
  \<open>except\<close> clause, with the world as it is then.
\<close>

definition upload_try ::
  "stored_data world \<Rightarrow> request \<Rightarrow> string \<Rightarrow> string \<Rightarrow>
     (py_error + stored_data response) \<times> stored_data world" where
  "upload_try w req key log_path =
     (case mavlink_connection w log_path of
        Inl e \<Rightarrow> (Inl e, w)
      | Inr mlog \<Rightarrow>
          let message_types = collect_types mlog {}
          in case process_battery_data (mavlink_connection w) log_path of
               Inl e \<Rightarrow> (Inl e, w)
             | Inr result \<Rightarrow>
                 (case safe_remove_file w log_path default_retries default_delay of
                    (Inl e, w1) \<Rightarrow> (Inl e, w1)
                  | (Inr removed, w1) \<Rightarrow> respond w1 req key message_types result))"

definition upload_bin ::
  "stored_data world \<Rightarrow> request \<Rightarrow> stored_data response \<times> stored_data world" where
  "upload_bin w req =
     (case file_part req of
        None \<Rightarrow> ((Error ''No file part'', 400), w)
      | Some filename \<Rightarrow>
          if filename = '''' then ((Error ''No selected file'', 400), w)
          else
            case time_time w of
              (now, w1) \<Rightarrow>
                let key = (case arg_key req of None \<Rightarrow> str_int (py_int now) | Some k \<Rightarrow> k)
                in case temp_save w1 of
                     Inl e \<Rightarrow> ((Error_exc ''Failed to save file: '' e, 500), w1)
                   | Inr log_path \<Rightarrow>
                       (case upload_try w1 req key log_path of
                          (Inr response, w2) \<Rightarrow> (response, w2)
                        | (Inl e, w2) \<Rightarrow>
                            (case safe_remove_file w2 log_path default_retries default_delay of
                               (Inl e', w3) \<Rightarrow> ((Unhandled e', 500), w3)
                             | (Inr removed, w3) \<Rightarrow>
                                 ((Error_exc ''Error processing file: '' e, 500), w3))))"

section \<open>Notions used to state the properties\<close>

text \<open>The messages of type BAT of a log, in stream order.\<close>

definition bats :: "msg list \<Rightarrow> msg list" where
  "bats mlog = filter (\<lambda>m. get_type m = ''BAT'') mlog"

text \<open>
  A BAT message that carries a voltage: \<open>Volt\<close> is a finite float, \<open>TimeUS\<close> is a number
  and \<open>Curr\<close> is present, as in every BAT record a flight controller writes.
\<close>

fun is_num :: "py_error + pyval \<Rightarrow> bool" where
  "is_num (Inr (PInt i)) = True"
| "is_num (Inr (PFloat f)) = True"
| "is_num v = False"

fun is_finite_float :: "py_error + pyval \<Rightarrow> bool" where
  "is_finite_float (Inr (PFloat (Fin a))) = True"
| "is_finite_float v = False"

definition well_formed_bat :: "msg \<Rightarrow> bool" where
  "well_formed_bat m =
     (is_finite_float (getattr m ''Volt'') \<and> is_num (getattr m ''TimeUS'') \<and>
      hasattr m ''Curr'')"

text \<open>The finite \<open>Volt\<close> values of the BAT messages of a log, in stream order.\<close>

definition volt_num :: "msg \<Rightarrow> rat option" where
  "volt_num m = (case getattr m ''Volt'' of Inr (PFloat (Fin v)) \<Rightarrow> Some v | _ \<Rightarrow> None)"

definition bat_volts :: "msg list \<Rightarrow> rat list" where
  "bat_volts mlog = List.map_filter volt_num (bats mlog)"

text \<open>
  The scenario of the specification: a format-definition frame for BAT with the fields
  \<open>TimeUS\<close> (u64), \<open>Volt\<close> (f32) and \<open>Curr\<close> (f32), then three BAT frames written with the
  voltages 12.6, 12.4 and 12.5. The log reader returns the format-definition frame as a
  message of type FMT, and an f32 field as the double of the same value: the f32 nearest
  to 12.6 is \<open>6606029 / 2^19\<close> (12.600000381469727), the one nearest to 12.4 is
  \<open>6501171 / 2^19\<close> (12.399999618530273), and 12.5 is an f32.
\<close>

definition fmt_frame :: msg where
  "fmt_frame =
     \<lparr> mtype = ''FMT'',
       attrs = [(''Type'', PInt 1), (''Length'', PInt 19), (''Name'', PStr ''BAT''),
                (''Format'', PStr ''Qff''), (''Columns'', PStr ''TimeUS,Volt,Curr'')] \<rparr>"

definition bat_frame :: "int \<Rightarrow> rat \<Rightarrow> rat \<Rightarrow> msg" where
  "bat_frame t v c =
     \<lparr> mtype = ''BAT'',
       attrs = [(''TimeUS'', PInt t), (''Volt'', PFloat (Fin v)), (''Curr'', PFloat (Fin c))] \<rparr>"

definition scenario_log :: "int \<Rightarrow> rat \<Rightarrow> int \<Rightarrow> rat \<Rightarrow> int \<Rightarrow> rat \<Rightarrow> msg list" where
  "scenario_log t1 c1 t2 c2 t3 c3 =
     [fmt_frame, bat_frame t1 (6606029 / 524288) c1, bat_frame t2 (6501171 / 524288) c2,
      bat_frame t3 (25 / 2) c3]"

text \<open>A BAT message with the fields of \<open>bat_frame\<close> and any value as its voltage.\<close>

definition bat_with_volt :: "pyval \<Rightarrow> msg" where
  "bat_with_volt v =
     \<lparr> mtype = ''BAT'',
       attrs = [(''TimeUS'', PInt 1000000), (''Volt'', v), (''Curr'', PFloat (Fin 2))] \<rparr>"

text \<open>Concrete inputs on which the theorems are instantiated.\<close>

definition witness_log :: "msg list" where
  "witness_log = [bat_frame 1000000 12 2, fmt_frame, bat_frame 2500000 11 3]"

text \<open>
  What the record of a BAT message stores for an optional field: the value of the
  attribute when the message has it, \<open>None\<close> when it has not.
\<close>

definition stored_optional :: "msg \<Rightarrow> string \<Rightarrow> pyval option \<Rightarrow> bool" where
  "stored_optional m name stored =
     (if hasattr m name
      then (case stored of Some v \<Rightarrow> getattr m name = Inr v | None \<Rightarrow> False)
      else stored = None)"

definition optional_fields :: "battery_record \<Rightarrow> (string \<times> pyval option) list" where
  "optional_fields r =
     [(''VoltR'', VoltR r), (''CurrTot'', CurrTot r), (''EnrgTot'', EnrgTot r),
      (''Temp'', Temp r), (''Res'', Res r), (''RemPct'', RemPct r), (''H'', H r), (''SH'', SH r)]"

definition optionals_stored :: "msg \<Rightarrow> battery_record \<Rightarrow> bool" where
  "optionals_stored m r =
     list_all (\<lambda>(name, stored). stored_optional m name stored) (optional_fields r)"

text \<open>
  The seconds of a \<open>TimeUS\<close> value: the value as a double, divided by \<open>10^6\<close> and rounded
  to the nearest double. An infinity or a NaN stays what it is.
\<close>

fun seconds :: "pyval \<Rightarrow> pyfloat option" where
  "seconds (PInt t) = Some (Fin (nearest_double (nearest_double (of_int t) / 10 ^ 6)))"
| "seconds (PFloat (Fin a)) = Some (Fin (nearest_double (a / 10 ^ 6)))"
| "seconds (PFloat f) = Some f"
| "seconds (PStr s) = None"

text \<open>
  The record holds the seconds of \<open>TimeUS\<close> as its timestamp, and \<open>Volt\<close> and \<open>Curr\<close> as the
  message has them.
\<close>

definition raw_stored :: "msg \<Rightarrow> battery_record \<Rightarrow> bool" where
  "raw_stored m r =
     ((case getattr m ''TimeUS'' of
         Inr t \<Rightarrow> seconds t = Some (timestamp r)
       | Inl e \<Rightarrow> False) \<and>
      getattr m ''Volt'' = Inr (Volt r) \<and>
      getattr m ''Curr'' = Inr (Curr r))"

definition witness_bat :: msg where
  "witness_bat =
     \<lparr> mtype = ''BAT'',
       attrs = [(''TimeUS'', PInt 3000000), (''Volt'', PFloat (Fin (25 / 2))),
                (''VoltR'', PFloat (Fin 12)), (''Curr'', PFloat (Fin 4)),
                (''Temp'', PInt 30)] \<rparr>"

definition bat_without :: "string \<Rightarrow> msg" where
  "bat_without name =
     witness_bat\<lparr>attrs := filter (\<lambda>(k, v). k \<noteq> name) (attrs witness_bat)\<rparr>"

text \<open>
  A world for the instances: no stored file, the temporary file \<open>/tmp/tmp1.bin\<close> that
  holds the given log, removal and writing as given.
\<close>

definition witness_world ::
  "(nat \<Rightarrow> bool) \<Rightarrow> write_outcome \<Rightarrow> msg list \<Rightarrow> stored_data world" where
  "witness_world ok wr mlog =
     \<lparr> files = Map.empty,
       write_outcome = (\<lambda>p. wr),
       remove_ok = (\<lambda>p. ok),
       removes = [],
       sleeps = [],
       cleanup_calls = [],
       clock = (\<lambda>n. 1700000000 + of_nat n),
       time_calls = 0,
       temp_save = Inr ''/tmp/tmp1.bin'',
       mavlink_connection = (\<lambda>p. if p = ''/tmp/tmp1.bin'' then Inr mlog else Inl OSError) \<rparr>"

definition witness_request :: "int option \<Rightarrow> string option \<Rightarrow> request" where
  "witness_request limit full =
     \<lparr> file_part = Some ''flight.bin'', arg_key = Some ''flight1'', arg_limit = limit,
       arg_full = full \<rparr>"

definition witness_data :: stored_data where
  "witness_data =
     \<lparr> s_battery_data = [],
       s_max_voltage = Some (PFloat (Fin 12)),
       s_min_voltage = Some (PFloat (Fin 11)),
       s_mean_voltage = Some (PFloat (Fin (23 / 2))),
       s_message_types = [''BAT'', ''FMT''],
       s_timestamp = 1700000001 \<rparr>"



text \<open>The world after one call of \<open>safe_remove_file\<close> with the default arguments.\<close>

definition cleaned :: "'d world \<Rightarrow> string \<Rightarrow> 'd world" where
  "cleaned w file_path =
     w\<lparr> cleanup_calls := cleanup_calls w @ [file_path],
        removes := removes w @ [file_path],
        sleeps := (if remove_ok w file_path (length (removes w)) then sleeps w
                   else sleeps w @ [default_delay]) \<rparr>"

text \<open>The slice of the records that the handler answers with and stores.\<close>

definition response_data :: "request \<Rightarrow> battery_record list \<Rightarrow> battery_record list" where
  "response_data req records =
     (if lower (case arg_full req of None \<Rightarrow> ''false'' | Some s \<Rightarrow> s) = ''true'' \<or>
         arg_limit req = None
      then records
      else slice_to records (the (arg_limit req)))"

text \<open>The key of an upload: the query argument, or the seconds of the clock when it is absent.\<close>

definition request_key :: "'d world \<Rightarrow> request \<Rightarrow> string" where
  "request_key w req =
     (case arg_key req of None \<Rightarrow> str_int (py_int (clock w (time_calls w))) | Some k \<Rightarrow> k)"

text \<open>The world when the \<open>try\<close> block is left: the clock was read once, the file removed once.\<close>

definition after_cleanup :: "'d world \<Rightarrow> string \<Rightarrow> 'd world" where
  "after_cleanup w log_path = cleaned (w\<lparr>time_calls := Suc (time_calls w)\<rparr>) log_path"

text \<open>The record of a BAT message that has only \<open>TimeUS\<close>, \<open>Volt\<close> and \<open>Curr\<close>.\<close>

definition plain_record :: "rat \<Rightarrow> rat \<Rightarrow> rat \<Rightarrow> battery_record" where
  "plain_record ts v c =
     \<lparr> timestamp = Fin ts, Volt = PFloat (Fin v), VoltR = None, Curr = PFloat (Fin c),
       CurrTot = None, EnrgTot = None, Temp = None, Res = None, RemPct = None, H = None,
       SH = None \<rparr>"

text \<open>A log whose second BAT message has no \<open>Volt\<close>: processing it raises.\<close>

definition broken_log :: "msg list" where
  "broken_log =
     [fmt_frame, bat_frame 1000000 12 2,
      \<lparr> mtype = ''BAT'', attrs = [(''TimeUS'', PInt 2000000), (''Curr'', PFloat (Fin 3))] \<rparr>]"

text \<open>A log reader that yields the given messages for every path.\<close>

definition log_reader :: "msg list \<Rightarrow> mavlink" where
  "log_reader mlog log_path = Inr mlog"

text \<open>An aggregate that is \<open>None\<close> or a number.\<close>

fun no_string :: "pyval option \<Rightarrow> bool" where
  "no_string None = True"
| "no_string (Some v) = (\<not> is_str v)"

text \<open>
  \<open>n / 100\<close> is the number with two decimals nearest to \<open>a\<close>, the one with an even last
  digit when two are equally near.
\<close>

definition nearest_hundredth :: "int \<Rightarrow> rat \<Rightarrow> bool" where
  "nearest_hundredth n a =
     (\<bar>of_int n - a * 100\<bar> < 1 / 2 \<or> (\<bar>of_int n - a * 100\<bar> = 1 / 2 \<and> even n))"

text \<open>
  A log of five BAT frames with the voltages 12, 12, 12, 12 and 12.125: their mean
  12.025 is not a double.
\<close>

definition rounding_log :: "msg list" where
  "rounding_log =
     [bat_frame 1000000 12 2, bat_frame 2000000 12 2, fmt_frame, bat_frame 3000000 12 2,
      bat_frame 4000000 12 2, bat_frame 5000000 (97 / 8) 2]"

section \<open>Properties of the float arithmetic\<close>

lemma floor_rat_numeral_div:
  "\<lfloor>numeral a / numeral b :: rat\<rfloor> = numeral a div numeral b"
  by (metis floor_divide_of_int_eq of_int_numeral)

lemmas double_eval = nearest_double_def scale_round.simps round_half_even_def pow2_def Let_def
  floor_rat_numeral_div

lemma round_half_even_of_int: "round_half_even (of_int k) = k"
  by (simp add: round_half_even_def)

lemma round_half_even_close: "\<bar>of_int (round_half_even x) - x\<bar> \<le> 1 / 2"
proof -
  have "of_int \<lfloor>x\<rfloor> \<le> x" and "x < of_int \<lfloor>x\<rfloor> + 1" by linarith+
  then show ?thesis by (auto simp: round_half_even_def Let_def)
qed

lemma nb: "k < 2 ^ 53 \<Longrightarrow> \<not> (2 ^ 53 \<le> (of_int k :: rat))"
proof -
  assume "k < 2 ^ 53"
  then have "(of_int k :: rat) < of_int (2 ^ 53)" by (simp only: of_int_less_iff)
  then show ?thesis by simp
qed

lemma pow2_double: "e \<le> 0 \<Longrightarrow> pow2 (e - 1) * 2 = pow2 e"
proof -
  assume e: "e \<le> 0"
  then have "nat (1 - e) = Suc (nat (- e))" by simp
  with e show ?thesis by (simp add: pow2_def)
qed

lemma scale_round_int:
  "0 < k \<Longrightarrow> k < 2 ^ 53 \<Longrightarrow> e \<le> 0 \<Longrightarrow> scale_round e (of_int k) = of_int k * pow2 e"
proof (induction "nat (2 ^ 53 - k)" arbitrary: k e rule: less_induct)
  case less
  have nb: "\<not> (2 ^ 53 \<le> (of_int k :: rat))" using less.prems(2) by (rule nb)
  show ?case
  proof (cases "(of_int k :: rat) < 2 ^ 52 \<and> - 1074 < e")
    case True
    then have "(of_int k :: rat) < of_int (2 ^ 52)" by simp
    then have k52: "k < 2 ^ 52" by (simp only: of_int_less_iff)
    then have k2: "0 < 2 * k" "2 * k < 2 ^ 53" using less.prems by simp_all
    have m: "nat (2 ^ 53 - 2 * k) < nat (2 ^ 53 - k)" using less.prems k2 by linarith
    from less.hyps[OF m k2] less.prems(3)
    have "scale_round (e - 1) (of_int (2 * k)) = of_int (2 * k) * pow2 (e - 1)" by simp
    then have "scale_round (e - 1) (of_int k * 2) = of_int k * (pow2 (e - 1) * 2)"
      by (simp add: mult.commute mult.left_commute)
    then have "scale_round (e - 1) (of_int k * 2) = of_int k * pow2 e"
      using pow2_double[OF less.prems(3)] by simp
    with nb True show ?thesis by (subst scale_round.simps) simp
  next
    case False
    with nb show ?thesis
      by (subst scale_round.simps) (auto simp: round_half_even_of_int)
  qed
qed

lemma nearest_double_int:
  assumes "\<bar>i\<bar> < 2 ^ 53"
  shows "nearest_double (of_int i) = of_int i"
proof -
  consider "i = 0" | "0 < i" | "i < 0" by linarith
  then show ?thesis
  proof cases
    case 1
    then show ?thesis by (simp add: nearest_double_def)
  next
    case 2
    with assms have "scale_round 0 (of_int i) = of_int i * pow2 0"
      by (intro scale_round_int) simp_all
    with 2 show ?thesis by (simp add: nearest_double_def pow2_def)
  next
    case 3
    with assms have "scale_round 0 (of_int (- i)) = of_int (- i) * pow2 0"
      by (intro scale_round_int) simp_all
    with 3 show ?thesis by (simp add: nearest_double_def pow2_def)
  qed
qed


section \<open>Properties of Battery.py\<close>

lemma battery_loop_acc:
  "battery_loop ms bd vs = Inr (bd', vs') \<Longrightarrow>
     \<exists>rs ws. bd' = bd @ rs \<and> vs' = vs @ ws \<and>
       list_all2 (\<lambda>m (w, r). bat_entry m = Inr (w, r)) (bats ms) (zip ws rs) \<and>
       length ws = length rs"
proof (induction ms arbitrary: bd vs)
  case Nil
  then show ?case by (simp add: bats_def)
next
  case (Cons m ms)
  show ?case
  proof (cases "get_type m = ''BAT''")
    case False
    with Cons.prems have "battery_loop ms bd vs = Inr (bd', vs')" by simp
    from Cons.IH[OF this] False show ?thesis by (simp add: bats_def)
  next
    case True
    with Cons.prems obtain w r where e: "bat_entry m = Inr (w, r)"
      and l: "battery_loop ms (bd @ [r]) (vs @ [w]) = Inr (bd', vs')"
      by (auto split: sum.splits)
    from Cons.IH[OF l] obtain rs ws where
      "bd' = (bd @ [r]) @ rs" "vs' = (vs @ [w]) @ ws"
      "list_all2 (\<lambda>m (w, r). bat_entry m = Inr (w, r)) (bats ms) (zip ws rs)"
      "length ws = length rs"
      by blast
    then have "bd' = bd @ (r # rs) \<and> vs' = vs @ (w # ws) \<and>
       list_all2 (\<lambda>m (w, r). bat_entry m = Inr (w, r)) (bats (m # ms)) (zip (w # ws) (r # rs))
       \<and> length (w # ws) = length (r # rs)"
      using True e by (simp add: bats_def)
    then show ?thesis by blast
  qed
qed

lemma battery_loop_bats:
  "battery_loop (bats ms) bd vs = battery_loop ms bd vs"
  by (induction ms arbitrary: bd vs) (auto simp: bats_def split: sum.splits)

lemma battery_loop_index:
  assumes "battery_loop ms [] [] = Inr (bd, vs)"
  shows "length bd = length (bats ms) \<and> length vs = length (bats ms) \<and>
         (\<forall>i<length (bats ms). bat_entry (bats ms ! i) = Inr (vs ! i, bd ! i))"
proof -
  from battery_loop_acc[OF assms] obtain rs ws where
    "bd = rs" "vs = ws"
    and a: "list_all2 (\<lambda>m (w, r). bat_entry m = Inr (w, r)) (bats ms) (zip ws rs)"
    and l: "length ws = length rs"
    by auto
  then show ?thesis
    by (auto simp: list_all2_conv_all_nth)
qed

lemma battery_loop_Inl:
  "battery_loop ms bd vs = Inl e \<Longrightarrow> \<exists>m\<in>set (bats ms). bat_entry m = Inl e"
proof (induction ms arbitrary: bd vs)
  case Nil
  then show ?case by simp
next
  case (Cons m ms)
  then show ?case
    by (cases "get_type m = ''BAT''") (auto simp: bats_def split: sum.splits)
qed

lemma battery_loop_entries:
  "\<forall>m\<in>set (bats ms). \<exists>p. bat_entry m = Inr p \<Longrightarrow> \<exists>q. battery_loop ms bd vs = Inr q"
proof (cases "battery_loop ms bd vs")
  case (Inl e)
  assume a: "\<forall>m\<in>set (bats ms). \<exists>p. bat_entry m = Inr p"
  from battery_loop_Inl[OF Inl] a show ?thesis by auto
next
  case (Inr q)
  then show ?thesis by simp
qed

lemma bat_entry_Volt:
  "bat_entry m = Inr (v, r) \<Longrightarrow> getattr m ''Volt'' = Inr v \<and> Volt r = v"
  by (auto simp: bat_entry_def split: sum.splits)

lemma truediv_seconds: "truediv_1e6 t = Inr ts \<longleftrightarrow> seconds t = Some ts"
  by (induction t rule: truediv_1e6.induct) auto

lemma truediv_num: "is_num (Inr t) \<Longrightarrow> \<exists>ts. truediv_1e6 t = Inr ts"
  by (induction t rule: truediv_1e6.induct) auto

lemma bat_entry_required:
  assumes "hasattr m ''Volt''" and "is_num (getattr m ''TimeUS'')" and "hasattr m ''Curr''"
  shows "\<exists>v r. bat_entry m = Inr (v, r)"
proof -
  from assms(1) obtain v where v: "getattr m ''Volt'' = Inr v"
    by (auto simp: hasattr_def getattr_def)
  from assms(2) obtain t where t: "getattr m ''TimeUS'' = Inr t" "is_num (Inr t)"
    by (cases "getattr m ''TimeUS''") auto
  from truediv_num[OF t(2)] obtain ts where ts: "truediv_1e6 t = Inr ts" by blast
  from assms(3) obtain c where c: "getattr m ''Curr'' = Inr c"
    by (auto simp: hasattr_def getattr_def)
  from v t(1) ts c show ?thesis by (simp add: bat_entry_def)
qed

lemma well_formed_bat_entry:
  assumes "well_formed_bat m"
  shows "\<exists>v r. bat_entry m = Inr (PFloat (Fin v), r) \<and> volt_num m = Some v"
proof -
  from assms obtain v where v: "getattr m ''Volt'' = Inr (PFloat (Fin v))"
    unfolding well_formed_bat_def by (auto elim: is_finite_float.elims)
  then have h: "hasattr m ''Volt''" by (auto simp: hasattr_def getattr_def split: option.splits)
  from assms h bat_entry_required[of m] obtain w r where "bat_entry m = Inr (w, r)"
    unfolding well_formed_bat_def by blast
  with bat_entry_Volt[OF this] v show ?thesis by (auto simp: volt_num_def)
qed

lemma battery_loop_well_formed:
  "\<forall>m\<in>set ms. get_type m = ''BAT'' \<longrightarrow> well_formed_bat m \<Longrightarrow>
     \<exists>bd'. battery_loop ms bd vs = Inr (bd', vs @ map (\<lambda>v. PFloat (Fin v)) (bat_volts ms))"
proof (induction ms arbitrary: bd vs)
  case Nil
  then show ?case by (simp add: bat_volts_def bats_def List.map_filter_simps)
next
  case (Cons m ms)
  show ?case
  proof (cases "get_type m = ''BAT''")
    case False
    then have "bat_volts (m # ms) = bat_volts ms" by (simp add: bat_volts_def bats_def)
    with False Cons show ?thesis by simp
  next
    case True
    with Cons.prems have "well_formed_bat m" by simp
    from well_formed_bat_entry[OF this] obtain v r where
      e: "bat_entry m = Inr (PFloat (Fin v), r)" and n: "volt_num m = Some v" by blast
    from True n have bv: "bat_volts (m # ms) = v # bat_volts ms"
      by (simp add: bat_volts_def bats_def List.map_filter_simps)
    from Cons.prems have "\<forall>m\<in>set ms. get_type m = ''BAT'' \<longrightarrow> well_formed_bat m" by simp
    from Cons.IH[OF this, of "bd @ [r]" "vs @ [PFloat (Fin v)]"] True e bv
    show ?thesis by simp
  qed
qed

lemma max_from_fold:
  "max_from (PFloat (Fin c)) (map (\<lambda>v. PFloat (Fin v)) xs) = Inr (PFloat (Fin (fold max xs c)))"
proof (induction xs arbitrary: c)
  case Nil
  then show ?case by simp
next
  case (Cons x xs)
  show ?case
  proof (cases "c < x")
    case True
    then have "max x c = x" by simp
    with True Cons.IH[of x] show ?thesis by (simp add: py_gt_def)
  next
    case False
    then have "max x c = c" by simp
    with False Cons.IH[of c] show ?thesis by (simp add: py_gt_def)
  qed
qed

lemma max_from_floats:
  "max_from (PFloat (Fin c)) (map (\<lambda>v. PFloat (Fin v)) xs) =
     Inr (PFloat (Fin (Max (set (c # xs)))))"
  by (simp only: max_from_fold Max.set_eq_fold)

lemma min_from_fold:
  "min_from (PFloat (Fin c)) (map (\<lambda>v. PFloat (Fin v)) xs) = Inr (PFloat (Fin (fold min xs c)))"
proof (induction xs arbitrary: c)
  case Nil
  then show ?case by simp
next
  case (Cons x xs)
  show ?case
  proof (cases "x < c")
    case True
    then have "min x c = x" by simp
    with True Cons.IH[of x] show ?thesis by simp
  next
    case False
    then have "min x c = c" by simp
    with False Cons.IH[of c] show ?thesis by simp
  qed
qed

lemma min_from_floats:
  "min_from (PFloat (Fin c)) (map (\<lambda>v. PFloat (Fin v)) xs) =
     Inr (PFloat (Fin (Min (set (c # xs)))))"
  by (simp only: min_from_fold Min.set_eq_fold)

lemma special_sum_floats: "special_sum (map (\<lambda>v. PFloat (Fin v)) xs) acc = acc"
  by (induction xs) auto

lemma mean_floats:
  assumes "xs \<noteq> []"
  shows "statistics_mean (map (\<lambda>v. PFloat (Fin v)) xs) =
           Inr (PFloat (Fin (nearest_double (sum_list xs / of_nat (length xs)))))"
proof -
  have s: "\<not> list_ex is_str (map (\<lambda>v. PFloat (Fin v)) xs)" by (simp add: list_ex_iff)
  have i: "\<not> list_all is_int (map (\<lambda>v. PFloat (Fin v)) xs)"
    using assms by (cases xs) simp_all
  have e: "exact_sum (map (\<lambda>v. PFloat (Fin v)) xs) = sum_list xs"
    by (simp add: exact_sum_def comp_def)
  from assms s i e show ?thesis
    by (simp add: statistics_mean_def special_sum_floats Let_def)
qed

lemma metrics_floats:
  "xs \<noteq> [] \<Longrightarrow>
   battery_metrics bd (map (\<lambda>v. PFloat (Fin v)) xs) =
     Inr \<lparr> battery_data = bd,
           max_voltage = Some (PFloat (Fin (Max (set xs)))),
           min_voltage = Some (PFloat (Fin (Min (set xs)))),
           mean_voltage = Some (PFloat (Fin (nearest_double (sum_list xs / of_nat (length xs))))) \<rparr>"
proof -
  assume ne: "xs \<noteq> []"
  then obtain y ys where xs: "xs = y # ys" by (cases xs) auto
  have mx: "py_max (map (\<lambda>v. PFloat (Fin v)) xs) = Inr (PFloat (Fin (Max (set xs))))"
    unfolding xs by (simp add: py_max_def max_from_floats del: max_from.simps)
  have mn: "py_min (map (\<lambda>v. PFloat (Fin v)) xs) = Inr (PFloat (Fin (Min (set xs))))"
    unfolding xs by (simp add: py_min_def min_from_floats del: min_from.simps)
  from ne mx mn mean_floats[OF ne] show ?thesis
    by (simp add: battery_metrics_def if_nonempty_def)
qed

lemma metrics_empty:
  "battery_metrics bd [] =
     Inr \<lparr> battery_data = bd, max_voltage = None, min_voltage = None, mean_voltage = None \<rparr>"
  by (simp add: battery_metrics_def if_nonempty_def)

lemma bat_volts_getattr:
  "\<forall>m\<in>set ms. get_type m = ''BAT'' \<longrightarrow> well_formed_bat m \<Longrightarrow>
     map (\<lambda>v. Inr (PFloat (Fin v))) (bat_volts ms) = map (\<lambda>m. getattr m ''Volt'') (bats ms)"
proof (induction ms)
  case Nil
  then show ?case by (simp add: bat_volts_def bats_def List.map_filter_simps)
next
  case (Cons m ms)
  show ?case
  proof (cases "get_type m = ''BAT''")
    case False
    with Cons show ?thesis by (simp add: bat_volts_def bats_def)
  next
    case True
    with Cons.prems have "well_formed_bat m" by simp
    from well_formed_bat_entry[OF this] obtain v r where
      e: "bat_entry m = Inr (PFloat (Fin v), r)" and n: "volt_num m = Some v" by blast
    from bat_entry_Volt[OF e] have "getattr m ''Volt'' = Inr (PFloat (Fin v))" by simp
    with Cons True n show ?thesis by (simp add: bat_volts_def bats_def List.map_filter_simps)
  qed
qed

lemma process_well_formed:
  assumes "mc log_path = Inr mlog"
    and "\<forall>m\<in>set mlog. get_type m = ''BAT'' \<longrightarrow> well_formed_bat m"
  shows "\<exists>bd. process_battery_data mc log_path =
           battery_metrics bd (map (\<lambda>v. PFloat (Fin v)) (bat_volts mlog)) \<and>
           battery_loop mlog [] [] = Inr (bd, map (\<lambda>v. PFloat (Fin v)) (bat_volts mlog)) \<and>
           length bd = length (bat_volts mlog)"
proof -
  from battery_loop_well_formed[OF assms(2), of "[]" "[]"] obtain bd where
    l: "battery_loop mlog [] [] = Inr (bd, map (\<lambda>v. PFloat (Fin v)) (bat_volts mlog))" by auto
  from battery_loop_index[OF l] have "length bd = length (bat_volts mlog)" by simp
  moreover from l assms(1) have "process_battery_data mc log_path =
           battery_metrics bd (map (\<lambda>v. PFloat (Fin v)) (bat_volts mlog))"
    by (simp add: process_battery_data_def)
  ultimately show ?thesis using l by blast
qed

lemma py_lt_nonstr: "\<not> is_str x \<Longrightarrow> \<not> is_str y \<Longrightarrow> \<exists>b. py_lt x y = Inr b"
  by (cases x; cases y) simp_all

lemma max_from_nonstr:
  "\<not> is_str cur \<Longrightarrow> \<forall>x\<in>set xs. \<not> is_str x \<Longrightarrow> \<exists>v. max_from cur xs = Inr v \<and> \<not> is_str v"
proof (induction xs arbitrary: cur)
  case Nil
  then show ?case by simp
next
  case (Cons x xs)
  from Cons.prems have x: "\<not> is_str x" by simp
  from py_lt_nonstr[OF Cons.prems(1) x] obtain b where b: "py_gt x cur = Inr b"
    by (auto simp: py_gt_def)
  from Cons.prems x have "\<not> is_str (if b then x else cur)" "\<forall>y\<in>set xs. \<not> is_str y" by simp_all
  from Cons.IH[OF this] b show ?case by simp
qed

lemma min_from_nonstr:
  "\<not> is_str cur \<Longrightarrow> \<forall>x\<in>set xs. \<not> is_str x \<Longrightarrow> \<exists>v. min_from cur xs = Inr v \<and> \<not> is_str v"
proof (induction xs arbitrary: cur)
  case Nil
  then show ?case by simp
next
  case (Cons x xs)
  from Cons.prems have x: "\<not> is_str x" by simp
  from py_lt_nonstr[OF x Cons.prems(1)] obtain b where b: "py_lt x cur = Inr b" by auto
  from Cons.prems x have "\<not> is_str (if b then x else cur)" "\<forall>y\<in>set xs. \<not> is_str y" by simp_all
  from Cons.IH[OF this] b show ?case by simp
qed

lemma mean_Inr: "statistics_mean xs = Inr v \<Longrightarrow> \<not> list_ex is_str xs \<and> \<not> is_str v"
  by (auto simp: statistics_mean_def Let_def split: if_splits option.splits)

lemma mean_nonstr:
  "xs \<noteq> [] \<Longrightarrow> \<not> list_ex is_str xs \<Longrightarrow> \<exists>v. statistics_mean xs = Inr v \<and> \<not> is_str v"
  by (auto simp: statistics_mean_def Let_def split: option.splits)

lemma metrics_nonstr:
  assumes "\<not> list_ex is_str vs"
  shows "\<exists>res. battery_metrics bd vs = Inr res \<and> battery_data res = bd \<and>
           no_string (max_voltage res) \<and> no_string (min_voltage res) \<and>
           no_string (mean_voltage res)"
proof (cases vs)
  case Nil
  then show ?thesis by (simp add: metrics_empty)
next
  case (Cons x xs)
  with assms have x: "\<not> is_str x" and xs: "\<forall>y\<in>set xs. \<not> is_str y"
    by (auto simp: list_ex_iff)
  from max_from_nonstr[OF x xs] obtain a where a: "max_from x xs = Inr a" "\<not> is_str a" by blast
  from min_from_nonstr[OF x xs] obtain b where b: "min_from x xs = Inr b" "\<not> is_str b" by blast
  from mean_nonstr[of vs] assms Cons obtain c where
    c: "statistics_mean (x # xs) = Inr c" "\<not> is_str c" by auto
  from a b c Cons show ?thesis
    by (simp add: battery_metrics_def if_nonempty_def py_max_def py_min_def)
qed

lemma metrics_Inr:
  assumes "battery_metrics bd vs = Inr res"
  shows "battery_data res = bd \<and> \<not> list_ex is_str vs \<and>
         no_string (max_voltage res) \<and> no_string (min_voltage res) \<and>
         no_string (mean_voltage res) \<and>
         (vs = [] \<longrightarrow> max_voltage res = None \<and> min_voltage res = None \<and> mean_voltage res = None)"
proof (cases "vs = []")
  case True
  with assms show ?thesis by (auto simp: metrics_empty)
next
  case False
  with assms obtain c where "statistics_mean vs = Inr c"
    by (auto simp: battery_metrics_def if_nonempty_def split: sum.splits)
  from mean_Inr[OF this] have ns: "\<not> list_ex is_str vs" by simp
  from metrics_nonstr[OF ns, of bd] assms False ns show ?thesis by auto
qed

lemma process_returns:
  assumes "mc log_path = Inr mlog" and "battery_loop mlog [] [] = Inr (bd, vs)"
    and "\<not> list_ex is_str vs"
  shows "\<exists>res. process_battery_data mc log_path = Inr res \<and> battery_data res = bd"
  using assms metrics_nonstr[OF assms(3), of bd] by (auto simp: process_battery_data_def)

lemma process_Inr_loop:
  assumes "mc log_path = Inr mlog" and "process_battery_data mc log_path = Inr res"
  shows "\<exists>voltages. battery_loop mlog [] [] = Inr (battery_data res, voltages) \<and>
           battery_metrics (battery_data res) voltages = Inr res"
proof -
  from assms obtain bd vs where l: "battery_loop mlog [] [] = Inr (bd, vs)"
    and m: "battery_metrics bd vs = Inr res"
    by (auto simp: process_battery_data_def split: sum.splits)
  from metrics_Inr[OF m] have "battery_data res = bd" by simp
  with l m show ?thesis by auto
qed

lemma process_records:
  assumes "mc log_path = Inr mlog" and "process_battery_data mc log_path = Inr res"
  shows "length (battery_data res) = length (bats mlog) \<and>
         (\<forall>i<length (bats mlog). \<exists>v. bat_entry (bats mlog ! i) = Inr (v, battery_data res ! i))"
proof -
  from process_Inr_loop[of mc log_path mlog res] assms obtain voltages where
    "battery_loop mlog [] [] = Inr (battery_data res, voltages)" by blast
  from battery_loop_index[OF this] show ?thesis by blast
qed

lemma process_no_bat:
  assumes "mc p = Inr mlog" and "bats mlog = []"
  shows "process_battery_data mc p =
           Inr \<lparr> battery_data = [], max_voltage = None, min_voltage = None, mean_voltage = None \<rparr>"
proof -
  from assms(2) have wf: "\<forall>m\<in>set mlog. get_type m = ''BAT'' \<longrightarrow> well_formed_bat m"
    by (auto simp: bats_def filter_empty_conv)
  from assms(2) have bv: "bat_volts mlog = []" by (simp add: bat_volts_def List.map_filter_simps)
  from process_well_formed[of mc p mlog] assms(1) wf bv show ?thesis
    by (auto simp: metrics_empty)
qed

lemma process_Inr_aggregates:
  assumes "mc log_path = Inr mlog" and "process_battery_data mc log_path = Inr res"
  shows "length (battery_data res) = length (bats mlog) \<and>
         no_string (max_voltage res) \<and> no_string (min_voltage res) \<and>
         no_string (mean_voltage res)"
proof -
  from process_Inr_loop[of mc log_path mlog res] assms obtain vs where
    "battery_metrics (battery_data res) vs = Inr res" by blast
  from metrics_Inr[OF this] process_records[of mc log_path mlog res] assms show ?thesis by simp
qed

lemma bat_frame_entry:
  "bat_entry (bat_frame t v c) =
     Inr (PFloat (Fin v),
          plain_record (nearest_double (nearest_double (of_int t) / 1000000)) v c)"
  by (simp add: bat_frame_def bat_entry_def getattr_def optattr_def hasattr_def plain_record_def)

lemma bat_with_volt_entry:
  "bat_entry (bat_with_volt v) = Inr (v, (plain_record 1 0 2)\<lparr>Volt := v\<rparr>)"
proof -
  have "nearest_double (nearest_double 1000000 / 1000000) = 1" by (simp add: double_eval)
  then show ?thesis
    by (simp add: bat_with_volt_def bat_entry_def getattr_def optattr_def hasattr_def
          plain_record_def)
qed

lemma frame_types:
  "get_type (bat_frame t v c) = ''BAT''" "get_type fmt_frame = ''FMT''"
  "get_type (bat_with_volt x) = ''BAT''"
  by (simp_all add: bat_frame_def fmt_frame_def bat_with_volt_def get_type_def)

lemma bat_frame_well_formed: "well_formed_bat (bat_frame t v c)"
  by (simp add: well_formed_bat_def bat_frame_def getattr_def hasattr_def)

lemma bat_frame_volt: "volt_num (bat_frame t v c) = Some v"
  by (simp add: volt_num_def bat_frame_def getattr_def)


lemma witness_log_bats:
  "bats witness_log = [bat_frame 1000000 12 2, bat_frame 2500000 11 3]"
  "bats [fmt_frame] = []"
  "bat_volts witness_log = [12, 11]"
  by (simp_all add: witness_log_def bat_volts_def bats_def frame_types List.map_filter_simps
        bat_frame_volt)


theorem C1_counterexample:
  "map_sum id mean_voltage
     (process_battery_data
        (log_reader [bat_with_volt (PFloat (Fin 1)), bat_with_volt (PFloat (Fin 1)),
                     bat_with_volt (PFloat (Fin 2))]) ''/tmp/tmp1.bin'')
     = Inr (Some (PFloat (Fin (6004799503160661 / 4503599627370496)))) \<and>
   (6004799503160661 / 4503599627370496 :: rat) \<noteq> (1 + 1 + 2) / 3 \<and>
   map_sum id max_voltage
     (process_battery_data
        (log_reader [bat_with_volt (PFloat NaN), bat_with_volt (PFloat (Fin 12))])
        ''/tmp/tmp1.bin'')
     = Inr (Some (PFloat NaN)) \<and>
   map_sum id max_voltage
     (process_battery_data
        (log_reader [bat_with_volt (PFloat (Fin 12)), bat_with_volt (PFloat NaN)])
        ''/tmp/tmp1.bin'')
     = Inr (Some (PFloat (Fin 12))) \<and>
   map_sum id max_voltage
     (process_battery_data (log_reader (scenario_log 1000000 1 2000000 1 3000000 1))
        ''/tmp/tmp1.bin'')
     = Inr (Some (PFloat (Fin (6606029 / 524288)))) \<and>
   (6606029 / 524288 :: rat) \<noteq> 126 / 10 \<and>
   process_battery_data
     (log_reader [\<lparr> mtype = ''BAT'', attrs = [(''Volt'', PFloat (Fin 12))] \<rparr>])
     ''/tmp/tmp1.bin''
     = Inl (AttributeError ''TimeUS'')"
proof -
  have n: "nearest_double (4 / 3) = 6004799503160661 / 4503599627370496"
    by (simp add: double_eval)
  have a: "map_sum id mean_voltage
     (process_battery_data
        (log_reader [bat_with_volt (PFloat (Fin 1)), bat_with_volt (PFloat (Fin 1)),
                     bat_with_volt (PFloat (Fin 2))]) ''/tmp/tmp1.bin'')
     = Inr (Some (PFloat (Fin (6004799503160661 / 4503599627370496))))"
    by (simp add: process_battery_data_def log_reader_def frame_types bat_with_volt_entry
          battery_metrics_def if_nonempty_def py_max_def py_min_def
          py_gt_def statistics_mean_def exact_sum_def Let_def n)
  have b: "map_sum id max_voltage
     (process_battery_data
        (log_reader [bat_with_volt (PFloat NaN), bat_with_volt (PFloat (Fin 12))])
        ''/tmp/tmp1.bin'')
     = Inr (Some (PFloat NaN))"
    by (simp add: process_battery_data_def log_reader_def frame_types bat_with_volt_entry
          battery_metrics_def if_nonempty_def py_max_def py_min_def
          py_gt_def statistics_mean_def exact_sum_def Let_def)
  have c: "map_sum id max_voltage
     (process_battery_data
        (log_reader [bat_with_volt (PFloat (Fin 12)), bat_with_volt (PFloat NaN)])
        ''/tmp/tmp1.bin'')
     = Inr (Some (PFloat (Fin 12)))"
    by (simp add: process_battery_data_def log_reader_def frame_types bat_with_volt_entry
          battery_metrics_def if_nonempty_def py_max_def py_min_def
          py_gt_def statistics_mean_def exact_sum_def Let_def)
  have d: "map_sum id max_voltage
     (process_battery_data (log_reader (scenario_log 1000000 1 2000000 1 3000000 1))
        ''/tmp/tmp1.bin'')
     = Inr (Some (PFloat (Fin (6606029 / 524288))))"
    by (simp add: process_battery_data_def log_reader_def frame_types scenario_log_def
          bat_frame_entry battery_metrics_def if_nonempty_def py_max_def py_min_def
          py_gt_def statistics_mean_def exact_sum_def Let_def)
  have e: "process_battery_data
     (log_reader [\<lparr> mtype = ''BAT'', attrs = [(''Volt'', PFloat (Fin 12))] \<rparr>])
     ''/tmp/tmp1.bin''
     = Inl (AttributeError ''TimeUS'')"
    by (simp add: process_battery_data_def log_reader_def get_type_def bat_entry_def getattr_def)
  from a b c d e show ?thesis by simp
qed

lemma witness_seconds:
  "nearest_double (nearest_double 1000000 / 1000000) = 1"
  "nearest_double (nearest_double 2500000 / 1000000) = 5 / 2"
  "nearest_double (nearest_double 3000000 / 1000000) = 3"
  by (simp_all add: double_eval)

lemma witness_log_process:
  "process_battery_data (log_reader witness_log) log_path =
     Inr \<lparr> battery_data = [plain_record 1 12 2, plain_record (5 / 2) 11 3],
           max_voltage = Some (PFloat (Fin 12)), min_voltage = Some (PFloat (Fin 11)),
           mean_voltage = Some (PFloat (Fin (23 / 2))) \<rparr>"
proof -
  have n: "nearest_double (23 / 2) = 23 / 2" by (simp add: double_eval)
  show ?thesis
    by (simp add: process_battery_data_def log_reader_def witness_log_def frame_types
          bat_frame_entry witness_seconds battery_metrics_def if_nonempty_def py_max_def
          py_min_def py_gt_def statistics_mean_def exact_sum_def Let_def n)
qed

text \<open>
  Claim C2. The loop of \<open>process_battery_data\<close> either raises at a BAT message whose
  required fields cannot be read, or returns one record for each message of type BAT, in
  stream order, and a \<open>voltages\<close> list that holds the \<open>Volt\<close> value of each BAT message in
  the same order. Messages of other types contribute nothing: the loop gives the same
  result on the BAT messages alone. When no voltage is a string, \<open>process_battery_data\<close>
  returns, and the \<open>battery_data\<close> it returns is that list of records; in particular it
  returns one record for each BAT message, in stream order, when every BAT message has a
  finite float \<open>Volt\<close>, a numeric \<open>TimeUS\<close> and a \<open>Curr\<close> field.
\<close>

theorem C2_records_in_stream_order:
  assumes "mc log_path = Inr mlog"
  shows "(case battery_loop mlog [] [] of
           Inl e \<Rightarrow>
             process_battery_data mc log_path = Inl e \<and>
             (\<exists>m\<in>set (bats mlog). bat_entry m = Inl e)
         | Inr (bd, voltages) \<Rightarrow>
             length bd = length (bats mlog) \<and>
             (\<forall>i<length (bats mlog). bat_entry (bats mlog ! i) = Inr (voltages ! i, bd ! i)) \<and>
             map Inr voltages = map (\<lambda>m. getattr m ''Volt'') (bats mlog) \<and>
             battery_loop (bats mlog) [] [] = Inr (bd, voltages) \<and>
             (\<forall>res. process_battery_data mc log_path = Inr res \<longrightarrow> battery_data res = bd) \<and>
             (\<not> list_ex is_str voltages \<longrightarrow>
                (\<exists>res. process_battery_data mc log_path = Inr res \<and> battery_data res = bd))) \<and>
         ((\<forall>m\<in>set (bats mlog). well_formed_bat m) \<longrightarrow>
            (\<exists>res. process_battery_data mc log_path = Inr res \<and>
               length (battery_data res) = length (bats mlog) \<and>
               (\<forall>i<length (bats mlog).
                  \<exists>v. bat_entry (bats mlog ! i) = Inr (v, battery_data res ! i))))"
proof (intro conjI impI)
  show "case battery_loop mlog [] [] of
           Inl e \<Rightarrow>
             process_battery_data mc log_path = Inl e \<and>
             (\<exists>m\<in>set (bats mlog). bat_entry m = Inl e)
         | Inr (bd, voltages) \<Rightarrow>
             length bd = length (bats mlog) \<and>
             (\<forall>i<length (bats mlog). bat_entry (bats mlog ! i) = Inr (voltages ! i, bd ! i)) \<and>
             map Inr voltages = map (\<lambda>m. getattr m ''Volt'') (bats mlog) \<and>
             battery_loop (bats mlog) [] [] = Inr (bd, voltages) \<and>
             (\<forall>res. process_battery_data mc log_path = Inr res \<longrightarrow> battery_data res = bd) \<and>
             (\<not> list_ex is_str voltages \<longrightarrow>
                (\<exists>res. process_battery_data mc log_path = Inr res \<and> battery_data res = bd))"
  proof (cases "battery_loop mlog [] []")
    case (Inl e)
    from battery_loop_Inl[OF Inl] Inl assms show ?thesis
      by (simp add: process_battery_data_def)
  next
    case (Inr p)
    obtain bd voltages where p: "p = (bd, voltages)" by (cases p)
    with Inr have l: "battery_loop mlog [] [] = Inr (bd, voltages)" by simp
    from battery_loop_index[OF l] have
      len: "length bd = length (bats mlog)" and lenv: "length voltages = length (bats mlog)"
      and ix: "\<forall>i<length (bats mlog). bat_entry (bats mlog ! i) = Inr (voltages ! i, bd ! i)"
      by simp_all
    have v: "map Inr voltages = map (\<lambda>m. getattr m ''Volt'') (bats mlog)"
    proof (rule nth_equalityI)
      show "length (map Inr voltages) = length (map (\<lambda>m. getattr m ''Volt'') (bats mlog))"
        using lenv by simp
    next
      fix i assume "i < length (map Inr voltages)"
      then have i: "i < length (bats mlog)" using lenv by simp
      with ix have "bat_entry (bats mlog ! i) = Inr (voltages ! i, bd ! i)" by simp
      from bat_entry_Volt[OF this] i lenv
      show "map Inr voltages ! i = map (\<lambda>m. getattr m ''Volt'') (bats mlog) ! i" by simp
    qed
    have b: "battery_loop (bats mlog) [] [] = Inr (bd, voltages)"
      using l by (simp add: battery_loop_bats)
    have r: "\<forall>res. process_battery_data mc log_path = Inr res \<longrightarrow> battery_data res = bd"
      using process_Inr_loop[of mc log_path mlog] assms l by auto
    have t: "\<not> list_ex is_str voltages \<longrightarrow>
                (\<exists>res. process_battery_data mc log_path = Inr res \<and> battery_data res = bd)"
      using process_returns[of mc log_path mlog bd voltages] assms l by blast
    from len ix v b r t show ?thesis unfolding l by simp
  qed
next
  assume "\<forall>m\<in>set (bats mlog). well_formed_bat m"
  then have wf: "\<forall>m\<in>set mlog. get_type m = ''BAT'' \<longrightarrow> well_formed_bat m"
    by (simp add: bats_def)
  from process_well_formed[of mc log_path mlog, OF assms wf] obtain bd where
    p: "process_battery_data mc log_path =
           battery_metrics bd (map (\<lambda>v. PFloat (Fin v)) (bat_volts mlog))" by blast
  have "\<not> list_ex is_str (map (\<lambda>v. PFloat (Fin v)) (bat_volts mlog))"
    by (simp add: list_ex_iff)
  from metrics_nonstr[OF this, of bd] p obtain res where
    res: "process_battery_data mc log_path = Inr res" by auto
  from process_records[of mc log_path mlog res, OF assms res] res
  show "\<exists>res. process_battery_data mc log_path = Inr res \<and>
               length (battery_data res) = length (bats mlog) \<and>
               (\<forall>i<length (bats mlog).
                  \<exists>v. bat_entry (bats mlog ! i) = Inr (v, battery_data res ! i))"
    by blast
qed

theorem C2_records_in_stream_order_witness:
  "log_reader witness_log ''/tmp/tmp1.bin'' = Inr witness_log \<and>
   list_all well_formed_bat (bats witness_log) \<and>
   length (bats witness_log) = 2 \<and>
   battery_loop witness_log [] [] =
     Inr ([plain_record 1 12 2, plain_record (5 / 2) 11 3], [PFloat (Fin 12), PFloat (Fin 11)]) \<and>
   (\<exists>res. process_battery_data (log_reader witness_log) ''/tmp/tmp1.bin'' = Inr res \<and>
      battery_data res = [plain_record 1 12 2, plain_record (5 / 2) 11 3])"
proof -
  have l: "battery_loop witness_log [] [] =
     Inr ([plain_record 1 12 2, plain_record (5 / 2) 11 3], [PFloat (Fin 12), PFloat (Fin 11)])"
    by (simp add: witness_log_def frame_types bat_frame_entry witness_seconds)
  have w: "list_all well_formed_bat (bats witness_log)"
    by (simp add: witness_log_bats bat_frame_well_formed)
  have s: "\<not> list_ex is_str [PFloat (Fin 12), PFloat (Fin 11)]" by simp
  from C2_records_in_stream_order[of "log_reader witness_log" "''/tmp/tmp1.bin''" witness_log]
    l w s
  show ?thesis by (simp add: log_reader_def witness_log_bats)
qed

text \<open>
  Claim C6, as amended. The conversion from microseconds to seconds is done where the
  record is built, in floating point: for every BAT message that has \<open>Volt\<close>, \<open>Curr\<close> and a
  numeric \<open>TimeUS\<close> a record is built; its \<open>timestamp\<close> is the raw \<open>TimeUS\<close>, taken as a
  double, divided by \<open>10^6\<close> and rounded to the nearest double (for an integer \<open>TimeUS\<close> below
  \<open>2^53\<close>: the double nearest to \<open>TimeUS / 10^6\<close>), and \<open>Volt\<close> and \<open>Curr\<close> are stored unscaled.
  This holds for the record of one message and for every record of the list that
  \<open>process_battery_data\<close> returns, which it does for every log whose BAT messages carry a
  finite float voltage.
\<close>

theorem C6_timestamp_in_seconds:
  "(hasattr m ''Volt'' \<and> is_num (getattr m ''TimeUS'') \<and> hasattr m ''Curr'' \<longrightarrow>
      (\<exists>v r. bat_entry m = Inr (v, r) \<and> raw_stored m r)) \<and>
   (bat_entry m = Inr (v, r) \<longrightarrow> raw_stored m r) \<and>
   (bat_entry m = Inr (v, r) \<and> getattr m ''TimeUS'' = Inr (PInt t) \<and> \<bar>t\<bar> < 2 ^ 53 \<longrightarrow>
      timestamp r = Fin (nearest_double (of_int t / 10 ^ 6))) \<and>
   (mc log_path = Inr mlog \<and> (\<forall>m\<in>set (bats mlog). well_formed_bat m) \<longrightarrow>
      (\<exists>res. process_battery_data mc log_path = Inr res \<and>
         length (battery_data res) = length (bats mlog) \<and>
         (\<forall>i<length (bats mlog). raw_stored (bats mlog ! i) (battery_data res ! i)))) \<and>
   (mc log_path = Inr mlog \<and> process_battery_data mc log_path = Inr res \<longrightarrow>
      length (battery_data res) = length (bats mlog) \<and>
      (\<forall>i<length (bats mlog). raw_stored (bats mlog ! i) (battery_data res ! i)))"
proof -
  have raw: "raw_stored m r" if "bat_entry m = Inr (v, r)" for m v r
    using that
    by (auto simp: bat_entry_def raw_stored_def truediv_seconds split: sum.splits)
  have a: "hasattr m ''Volt'' \<and> is_num (getattr m ''TimeUS'') \<and> hasattr m ''Curr'' \<longrightarrow>
      (\<exists>v r. bat_entry m = Inr (v, r) \<and> raw_stored m r)"
    using bat_entry_required[of m] raw by blast
  have b: "bat_entry m = Inr (v, r) \<longrightarrow> raw_stored m r" using raw by blast
  have c: "bat_entry m = Inr (v, r) \<and> getattr m ''TimeUS'' = Inr (PInt t) \<and> \<bar>t\<bar> < 2 ^ 53 \<longrightarrow>
      timestamp r = Fin (nearest_double (of_int t / 10 ^ 6))"
  proof
    assume h: "bat_entry m = Inr (v, r) \<and> getattr m ''TimeUS'' = Inr (PInt t) \<and> \<bar>t\<bar> < 2 ^ 53"
    then have "raw_stored m r" using raw by blast
    with h have "timestamp r = Fin (nearest_double (nearest_double (of_int t) / 10 ^ 6))"
      by (simp add: raw_stored_def)
    with h nearest_double_int[of t] show "timestamp r = Fin (nearest_double (of_int t / 10 ^ 6))"
      by simp
  qed
  have e: "mc log_path = Inr mlog \<and> process_battery_data mc log_path = Inr res \<longrightarrow>
      length (battery_data res) = length (bats mlog) \<and>
      (\<forall>i<length (bats mlog). raw_stored (bats mlog ! i) (battery_data res ! i))"
    using process_records[of mc log_path mlog res] raw by blast
  have d: "mc log_path = Inr mlog \<and> (\<forall>m\<in>set (bats mlog). well_formed_bat m) \<longrightarrow>
      (\<exists>res. process_battery_data mc log_path = Inr res \<and>
         length (battery_data res) = length (bats mlog) \<and>
         (\<forall>i<length (bats mlog). raw_stored (bats mlog ! i) (battery_data res ! i)))"
  proof
    assume h: "mc log_path = Inr mlog \<and> (\<forall>m\<in>set (bats mlog). well_formed_bat m)"
    then have wf: "\<forall>m\<in>set mlog. get_type m = ''BAT'' \<longrightarrow> well_formed_bat m"
      by (simp add: bats_def)
    from h process_well_formed[of mc log_path mlog, OF _ wf] obtain bd where
      p: "process_battery_data mc log_path =
           battery_metrics bd (map (\<lambda>v. PFloat (Fin v)) (bat_volts mlog))" by blast
    have "\<not> list_ex is_str (map (\<lambda>v. PFloat (Fin v)) (bat_volts mlog))"
      by (simp add: list_ex_iff)
    from metrics_nonstr[OF this, of bd] p obtain res' where
      res: "process_battery_data mc log_path = Inr res'" by auto
    from process_records[of mc log_path mlog res'] h res raw
    show "\<exists>res. process_battery_data mc log_path = Inr res \<and>
         length (battery_data res) = length (bats mlog) \<and>
         (\<forall>i<length (bats mlog). raw_stored (bats mlog ! i) (battery_data res ! i))"
      by blast
  qed
  from a b c d e show ?thesis by blast
qed

lemma stored_optional_optattr: "stored_optional m name (optattr m name)"
  by (auto simp: stored_optional_def optattr_def hasattr_def getattr_def split: option.splits)

lemma bat_entry_optionals: "bat_entry m = Inr (v, r) \<Longrightarrow> optionals_stored m r"
  by (auto simp: bat_entry_def optionals_stored_def optional_fields_def stored_optional_optattr
           split: sum.splits)

text \<open>
  Claim C7. For every BAT message each of \<open>VoltR\<close>, \<open>CurrTot\<close>, \<open>EnrgTot\<close>, \<open>Temp\<close>, \<open>Res\<close>,
  \<open>RemPct\<close>, \<open>H\<close>, \<open>SH\<close> is stored with the value of the attribute when the message has
  it and as \<open>None\<close> when it has not. \<open>Volt\<close>, \<open>TimeUS\<close> and \<open>Curr\<close> are read
  unconditionally: a message without one of them raises \<open>AttributeError\<close>. Whether the
  message fails does not depend on the optional fields: with \<open>Volt\<close> and \<open>Curr\<close> present
  and a numeric \<open>TimeUS\<close> a record is built.
\<close>

theorem C7_optional_fields:
  "(bat_entry m = Inr (v, r) \<longrightarrow> optionals_stored m r) \<and>
   (\<not> hasattr m ''Volt'' \<longrightarrow> bat_entry m = Inl (AttributeError ''Volt'')) \<and>
   (hasattr m ''Volt'' \<and> \<not> hasattr m ''TimeUS'' \<longrightarrow>
      bat_entry m = Inl (AttributeError ''TimeUS'')) \<and>
   (hasattr m ''Volt'' \<and> is_num (getattr m ''TimeUS'') \<and> \<not> hasattr m ''Curr'' \<longrightarrow>
      bat_entry m = Inl (AttributeError ''Curr'')) \<and>
   (hasattr m ''Volt'' \<and> is_num (getattr m ''TimeUS'') \<and> hasattr m ''Curr'' \<longrightarrow>
      (\<exists>p. bat_entry m = Inr p)) \<and>
   (mc log_path = Inr mlog \<and> process_battery_data mc log_path = Inr res \<longrightarrow>
      (\<forall>i<length (bats mlog). optionals_stored (bats mlog ! i) (battery_data res ! i)))"
proof (intro conjI impI)
  assume "bat_entry m = Inr (v, r)"
  then show "optionals_stored m r" by (rule bat_entry_optionals)
next
  assume "\<not> hasattr m ''Volt''"
  then show "bat_entry m = Inl (AttributeError ''Volt'')"
    by (simp add: bat_entry_def hasattr_def getattr_def)
next
  assume "hasattr m ''Volt'' \<and> \<not> hasattr m ''TimeUS''"
  then show "bat_entry m = Inl (AttributeError ''TimeUS'')"
    by (auto simp: bat_entry_def hasattr_def getattr_def)
next
  assume a: "hasattr m ''Volt'' \<and> is_num (getattr m ''TimeUS'') \<and> \<not> hasattr m ''Curr''"
  then obtain t where t: "getattr m ''TimeUS'' = Inr t" "is_num (Inr t)"
    by (cases "getattr m ''TimeUS''") auto
  from truediv_num[OF t(2)] obtain ts where "truediv_1e6 t = Inr ts" by blast
  with a t show "bat_entry m = Inl (AttributeError ''Curr'')"
    by (auto simp: bat_entry_def hasattr_def getattr_def)
next
  assume a: "hasattr m ''Volt'' \<and> is_num (getattr m ''TimeUS'') \<and> hasattr m ''Curr''"
  with bat_entry_required[of m] show "\<exists>p. bat_entry m = Inr p" by auto
next
  assume a: "mc log_path = Inr mlog \<and> process_battery_data mc log_path = Inr res"
  with process_records[of mc log_path mlog res]
  show "\<forall>i<length (bats mlog). optionals_stored (bats mlog ! i) (battery_data res ! i)"
    using bat_entry_optionals by blast
qed

lemma witness_bat_entry:
  "bat_entry witness_bat =
     Inr (PFloat (Fin (25 / 2)),
          \<lparr> timestamp = Fin 3, Volt = PFloat (Fin (25 / 2)), VoltR = Some (PFloat (Fin 12)),
            Curr = PFloat (Fin 4), CurrTot = None, EnrgTot = None, Temp = Some (PInt 30),
            Res = None, RemPct = None, H = None, SH = None \<rparr>)"
  by (simp add: witness_bat_def bat_entry_def getattr_def optattr_def hasattr_def
        witness_seconds)

lemma witness_bat_type: "get_type witness_bat = ''BAT''"
  by (simp add: witness_bat_def get_type_def)

lemma witness_bat_process:
  "process_battery_data (log_reader [fmt_frame, witness_bat]) ''/tmp/tmp1.bin'' =
     Inr \<lparr> battery_data = [snd (projr (bat_entry witness_bat))],
           max_voltage = Some (PFloat (Fin (25 / 2))), min_voltage = Some (PFloat (Fin (25 / 2))),
           mean_voltage = Some (PFloat (Fin (25 / 2))) \<rparr>"
proof -
  have n: "nearest_double (25 / 2) = 25 / 2" by (simp add: double_eval)
  show ?thesis
    by (simp add: process_battery_data_def log_reader_def witness_bat_entry frame_types witness_bat_type
          battery_metrics_def if_nonempty_def py_max_def py_min_def statistics_mean_def
          exact_sum_def Let_def n)
qed

lemma witness_bat_bats: "bats [fmt_frame, witness_bat] = [witness_bat]"
  by (simp add: bats_def frame_types witness_bat_type)

lemma witness_bat_required:
  "hasattr witness_bat ''Volt'' \<and> is_num (getattr witness_bat ''TimeUS'') \<and>
   hasattr witness_bat ''Curr''"
  "well_formed_bat witness_bat"
  "getattr witness_bat ''TimeUS'' = Inr (PInt 3000000)"
  by (simp_all add: witness_bat_def hasattr_def getattr_def well_formed_bat_def)

theorem C6_timestamp_in_seconds_witness:
  "hasattr witness_bat ''Volt'' \<and> is_num (getattr witness_bat ''TimeUS'') \<and>
   hasattr witness_bat ''Curr'' \<and>
   getattr witness_bat ''TimeUS'' = Inr (PInt 3000000) \<and> \<bar>3000000 :: int\<bar> < 2 ^ 53 \<and>
   list_all well_formed_bat (bats [fmt_frame, witness_bat]) \<and>
   (\<exists>v r. bat_entry witness_bat = Inr (v, r) \<and> raw_stored witness_bat r \<and>
      timestamp r = Fin (nearest_double (3000000 / 10 ^ 6)) \<and> timestamp r = Fin 3 \<and>
      Volt r = PFloat (Fin (25 / 2)) \<and> Curr r = PFloat (Fin 4)) \<and>
   (\<exists>res. process_battery_data (log_reader [fmt_frame, witness_bat]) ''/tmp/tmp1.bin'' = Inr res \<and>
      length (battery_data res) = 1 \<and>
      raw_stored witness_bat (battery_data res ! 0))"
proof -
  note t = C6_timestamp_in_seconds[of witness_bat "PFloat (Fin (25 / 2))"
      "snd (projr (bat_entry witness_bat))" 3000000
      "log_reader [fmt_frame, witness_bat]" "''/tmp/tmp1.bin''" "[fmt_frame, witness_bat]"
      "projr (process_battery_data (log_reader [fmt_frame, witness_bat]) ''/tmp/tmp1.bin'')"]
  have w: "list_all well_formed_bat (bats [fmt_frame, witness_bat])"
    by (simp add: witness_bat_bats witness_bat_required)
  have a: "\<exists>v r. bat_entry witness_bat = Inr (v, r) \<and> raw_stored witness_bat r \<and>
      timestamp r = Fin (nearest_double (3000000 / 10 ^ 6)) \<and> timestamp r = Fin 3 \<and>
      Volt r = PFloat (Fin (25 / 2)) \<and> Curr r = PFloat (Fin 4)"
    using t witness_bat_entry witness_bat_required by simp
  have b: "\<exists>res. process_battery_data (log_reader [fmt_frame, witness_bat]) ''/tmp/tmp1.bin'' = Inr res \<and>
      length (battery_data res) = 1 \<and>
      raw_stored witness_bat (battery_data res ! 0)"
    using t witness_bat_process witness_bat_bats by (simp add: log_reader_def)
  from a b w witness_bat_required show ?thesis by simp
qed

theorem C6_counterexample:
  "map_sum id (timestamp \<circ> snd) (bat_entry (bat_frame 1234567 12 2))
     = Inr (Fin (5559995481163911 / 4503599627370496)) \<and>
   (5559995481163911 / 4503599627370496 :: rat) \<noteq> 1234567 / 10 ^ 6"
proof -
  have "nearest_double (nearest_double 1234567 / 1000000) = 5559995481163911 / 4503599627370496"
    by (simp add: double_eval)
  then show ?thesis by (simp add: bat_frame_entry plain_record_def)
qed

theorem C7_optional_fields_witness:
  "(\<exists>v r. bat_entry witness_bat = Inr (v, r) \<and> optionals_stored witness_bat r \<and>
      VoltR r = Some (PFloat (Fin 12)) \<and> Temp r = Some (PInt 30) \<and> CurrTot r = None \<and>
      SH r = None) \<and>
   bat_entry (bat_without ''Volt'') = Inl (AttributeError ''Volt'') \<and>
   bat_entry (bat_without ''TimeUS'') = Inl (AttributeError ''TimeUS'') \<and>
   bat_entry (bat_without ''Curr'') = Inl (AttributeError ''Curr'') \<and>
   (\<exists>p. bat_entry (bat_without ''VoltR'') = Inr p) \<and>
   (\<exists>res. process_battery_data (log_reader [fmt_frame, witness_bat]) ''/tmp/tmp1.bin'' = Inr res \<and>
      optionals_stored witness_bat (battery_data res ! 0))"
proof -
  have h1: "\<not> hasattr (bat_without ''Volt'') ''Volt''"
    by (simp add: bat_without_def witness_bat_def hasattr_def)
  have h2: "hasattr (bat_without ''TimeUS'') ''Volt'' \<and> \<not> hasattr (bat_without ''TimeUS'') ''TimeUS''"
    by (simp add: bat_without_def witness_bat_def hasattr_def)
  have h3: "hasattr (bat_without ''Curr'') ''Volt'' \<and>
            is_num (getattr (bat_without ''Curr'') ''TimeUS'') \<and>
            \<not> hasattr (bat_without ''Curr'') ''Curr''"
    by (simp add: bat_without_def witness_bat_def hasattr_def getattr_def)
  have h4: "hasattr (bat_without ''VoltR'') ''Volt'' \<and>
            is_num (getattr (bat_without ''VoltR'') ''TimeUS'') \<and>
            hasattr (bat_without ''VoltR'') ''Curr''"
    by (simp add: bat_without_def witness_bat_def hasattr_def getattr_def)
  note t0 = C7_optional_fields[of witness_bat "PFloat (Fin (25 / 2))"
      "snd (projr (bat_entry witness_bat))"
      "log_reader [fmt_frame, witness_bat]" "''/tmp/tmp1.bin''" "[fmt_frame, witness_bat]"
      "projr (process_battery_data (log_reader [fmt_frame, witness_bat]) ''/tmp/tmp1.bin'')"]
  have c0: "\<exists>v r. bat_entry witness_bat = Inr (v, r) \<and> optionals_stored witness_bat r \<and>
      VoltR r = Some (PFloat (Fin 12)) \<and> Temp r = Some (PInt 30) \<and> CurrTot r = None \<and>
      SH r = None"
    using t0 witness_bat_entry by simp
  have c5: "\<exists>res. process_battery_data (log_reader [fmt_frame, witness_bat]) ''/tmp/tmp1.bin'' = Inr res \<and>
      optionals_stored witness_bat (battery_data res ! 0)"
    using t0 witness_bat_process witness_bat_bats by (simp add: log_reader_def)
  have c1: "bat_entry (bat_without ''Volt'') = Inl (AttributeError ''Volt'')"
    using C7_optional_fields[of "bat_without ''Volt''"] h1 by blast
  have c2: "bat_entry (bat_without ''TimeUS'') = Inl (AttributeError ''TimeUS'')"
    using C7_optional_fields[of "bat_without ''TimeUS''"] h2 by blast
  have c3: "bat_entry (bat_without ''Curr'') = Inl (AttributeError ''Curr'')"
    using C7_optional_fields[of "bat_without ''Curr''"] h3 by blast
  have c4: "\<exists>p. bat_entry (bat_without ''VoltR'') = Inr p"
    using C7_optional_fields[of "bat_without ''VoltR''"] h4 by blast
  from c0 c1 c2 c3 c4 c5 show ?thesis by blast
qed


section \<open>Properties of main.py\<close>

lemma remove_attempts_frame:
  "remove_attempts n w p delay = (r, w') \<Longrightarrow>
     w' = w\<lparr>removes := removes w', sleeps := sleeps w'\<rparr>"
proof (induction n arbitrary: w)
  case 0
  then show ?case by auto
next
  case (Suc n)
  show ?case
  proof (cases "remove_ok w p (length (removes w))")
    case True
    with Suc.prems show ?thesis by (auto simp: os_remove_def)
  next
    case False
    show ?thesis
    proof (cases "delay < 0")
      case True
      with False Suc.prems show ?thesis by (auto simp: os_remove_def time_sleep_def)
    next
      case nd: False
      let ?w2 = "w\<lparr>removes := removes w @ [p], sleeps := sleeps w @ [delay]\<rparr>"
      from False nd Suc.prems have "remove_attempts n ?w2 p delay = (r, w')"
        by (simp add: os_remove_def time_sleep_def)
      from Suc.IH[OF this] show ?thesis by simp
    qed
  qed
qed

lemma remove_attempts_trace:
  "0 \<le> delay \<Longrightarrow> remove_attempts n w p delay = (r, w') \<Longrightarrow>
     \<exists>k\<le>n. removes w' = removes w @ replicate k p \<and>
       (\<forall>j<k - 1. \<not> remove_ok w p (length (removes w) + j)) \<and>
       ((r = Inr True \<and> 0 < k \<and> remove_ok w p (length (removes w) + k - 1)) \<or>
        (r = Inr False \<and> k = n \<and> (\<forall>j<n. \<not> remove_ok w p (length (removes w) + j))))"
proof (induction n arbitrary: w)
  case 0
  then show ?case by auto
next
  case (Suc n)
  show ?case
  proof (cases "remove_ok w p (length (removes w))")
    case True
    with Suc.prems have "r = Inr True" "removes w' = removes w @ replicate 1 p"
      by (auto simp: os_remove_def)
    with True show ?thesis by (intro exI[of _ 1]) simp
  next
    case False
    let ?w2 = "w\<lparr>removes := removes w @ [p], sleeps := sleeps w @ [delay]\<rparr>"
    from False Suc.prems have "remove_attempts n ?w2 p delay = (r, w')"
      by (simp add: os_remove_def time_sleep_def)
    from Suc.IH[OF Suc.prems(1) this] obtain k where k: "k \<le> n"
      "removes w' = (removes w @ [p]) @ replicate k p"
      "\<forall>j<k - 1. \<not> remove_ok w p (Suc (length (removes w)) + j)"
      "(r = Inr True \<and> 0 < k \<and> remove_ok w p (Suc (length (removes w)) + k - 1)) \<or>
        (r = Inr False \<and> k = n \<and> (\<forall>j<n. \<not> remove_ok w p (Suc (length (removes w)) + j)))"
      by auto
    have a: "\<forall>j<Suc k - 1. \<not> remove_ok w p (length (removes w) + j)"
    proof (intro allI impI)
      fix j assume j: "j < Suc k - 1"
      show "\<not> remove_ok w p (length (removes w) + j)"
      proof (cases j)
        case 0
        with False show ?thesis by simp
      next
        case (Suc i)
        with j have "i < k - 1" by simp
        with k(3) Suc show ?thesis by simp
      qed
    qed
    have b: "(\<forall>j<n. \<not> remove_ok w p (Suc (length (removes w)) + j)) \<Longrightarrow>
             (\<forall>j<Suc n. \<not> remove_ok w p (length (removes w) + j))"
    proof (intro allI impI)
      fix j assume h: "\<forall>j<n. \<not> remove_ok w p (Suc (length (removes w)) + j)" and j: "j < Suc n"
      show "\<not> remove_ok w p (length (removes w) + j)"
        using h j False by (cases j) auto
    qed
    have c: "removes w' = removes w @ replicate (Suc k) p"
      using k(2) by (simp add: replicate_append_same)
    from k(4) have d: "(r = Inr True \<and> 0 < Suc k \<and> remove_ok w p (length (removes w) + Suc k - 1)) \<or>
        (r = Inr False \<and> Suc k = Suc n \<and> (\<forall>j<Suc n. \<not> remove_ok w p (length (removes w) + j)))"
      using b by auto
    from k(1) a c d show ?thesis by (intro exI[of _ "Suc k"]) simp
  qed
qed

text \<open>
  Claim C8. For \<open>retries \<ge> 1\<close> (and a delay that \<open>time.sleep\<close> accepts, as the default
  0.5 is) \<open>safe_remove_file\<close> calls \<open>os.remove\<close> on the path at least once and at most
  \<open>retries\<close> times and returns \<open>True\<close> or \<open>False\<close>, never an exception. When it returns
  \<open>True\<close> the last attempt made is the first one that succeeded; when it returns \<open>False\<close>
  it made \<open>retries\<close> attempts and all of them failed.
\<close>

theorem C8_bounded_retry:
  assumes "1 \<le> retries" and "0 \<le> delay"
    and "safe_remove_file w file_path retries delay = (r, w')"
  shows "\<exists>attempts. removes w' = removes w @ replicate attempts file_path \<and>
           1 \<le> attempts \<and> int attempts \<le> retries \<and>
           (r = Inr True \<or> r = Inr False) \<and>
           (r = Inr True \<longrightarrow>
              remove_ok w file_path (length (removes w) + attempts - 1) \<and>
              (\<forall>j<attempts - 1. \<not> remove_ok w file_path (length (removes w) + j))) \<and>
           (r = Inr False \<longrightarrow>
              int attempts = retries \<and>
              (\<forall>j<attempts. \<not> remove_ok w file_path (length (removes w) + j)))"
proof -
  let ?w0 = "w\<lparr>cleanup_calls := cleanup_calls w @ [file_path]\<rparr>"
  from assms(3) have "remove_attempts (nat retries) ?w0 file_path delay = (r, w')"
    by (simp add: safe_remove_file_def)
  from remove_attempts_trace[OF assms(2) this] obtain k where k: "k \<le> nat retries"
    "removes w' = removes w @ replicate k file_path"
    "\<forall>j<k - 1. \<not> remove_ok w file_path (length (removes w) + j)"
    "(r = Inr True \<and> 0 < k \<and> remove_ok w file_path (length (removes w) + k - 1)) \<or>
     (r = Inr False \<and> k = nat retries \<and>
        (\<forall>j<nat retries. \<not> remove_ok w file_path (length (removes w) + j)))"
    by auto
  from k(4) assms(1) have k1: "1 \<le> k" by auto
  from k(1) assms(1) have k2: "int k \<le> retries" by linarith
  from k k1 k2 assms(1) show ?thesis
    by (intro exI[of _ k]) auto
qed

theorem C8_bounded_retry_witness:
  "(1::int) \<le> 3 \<and> (0::rat) \<le> default_delay \<and>
   fst (safe_remove_file (witness_world (\<lambda>n. 2 \<le> n) Write_ok []) ''/tmp/tmp1.bin'' 3 default_delay)
     = Inr True \<and>
   removes (snd (safe_remove_file (witness_world (\<lambda>n. 2 \<le> n) Write_ok []) ''/tmp/tmp1.bin'' 3
       default_delay))
     = [''/tmp/tmp1.bin'', ''/tmp/tmp1.bin'', ''/tmp/tmp1.bin''] \<and>
   fst (safe_remove_file (witness_world (\<lambda>n. False) Write_ok []) ''/tmp/tmp1.bin'' 2 default_delay)
     = Inr False \<and>
   removes (snd (safe_remove_file (witness_world (\<lambda>n. False) Write_ok []) ''/tmp/tmp1.bin'' 2
       default_delay))
     = [''/tmp/tmp1.bin'', ''/tmp/tmp1.bin'']"
proof -
  let ?p = "''/tmp/tmp1.bin''"
  let ?w1 = "witness_world (\<lambda>n. 2 \<le> n) Write_ok []"
  let ?w2 = "witness_world (\<lambda>n. False) Write_ok []"
  have d: "(0::rat) \<le> default_delay" by (simp add: default_delay_def)
  have e1: "safe_remove_file ?w1 ?p 3 default_delay =
      (fst (safe_remove_file ?w1 ?p 3 default_delay), snd (safe_remove_file ?w1 ?p 3 default_delay))"
    by simp
  have e2: "safe_remove_file ?w2 ?p 2 default_delay =
      (fst (safe_remove_file ?w2 ?p 2 default_delay), snd (safe_remove_file ?w2 ?p 2 default_delay))"
    by simp
  have r1: "remove_ok ?w1 ?p = (\<lambda>n. 2 \<le> n)" "removes ?w1 = []"
    by (simp_all add: witness_world_def)
  have r2: "remove_ok ?w2 ?p = (\<lambda>n. False)" "removes ?w2 = []"
    by (simp_all add: witness_world_def)
  from C8_bounded_retry[OF _ d e1] r1 obtain a1 where a1:
    "removes (snd (safe_remove_file ?w1 ?p 3 default_delay)) = replicate a1 ?p"
    "1 \<le> a1" "int a1 \<le> 3"
    "fst (safe_remove_file ?w1 ?p 3 default_delay) = Inr True \<or>
     fst (safe_remove_file ?w1 ?p 3 default_delay) = Inr False"
    "fst (safe_remove_file ?w1 ?p 3 default_delay) = Inr True \<longrightarrow> 2 \<le> a1 - 1"
    "fst (safe_remove_file ?w1 ?p 3 default_delay) = Inr False \<longrightarrow>
       int a1 = 3 \<and> (\<forall>j<a1. \<not> 2 \<le> j)"
    by auto
  have nf: "fst (safe_remove_file ?w1 ?p 3 default_delay) \<noteq> Inr False"
  proof
    assume "fst (safe_remove_file ?w1 ?p 3 default_delay) = Inr False"
    with a1(6) have "a1 = 3" and "\<forall>j<a1. \<not> 2 \<le> j" by auto
    then have "\<not> 2 \<le> (2::nat)" by (metis lessI numeral_3_eq_3 numeral_2_eq_2)
    then show False by simp
  qed
  with a1(4) have t: "fst (safe_remove_file ?w1 ?p 3 default_delay) = Inr True" by simp
  with a1(5) a1(3) have "a1 = 3" by simp
  with a1(1) have l1: "removes (snd (safe_remove_file ?w1 ?p 3 default_delay)) = [?p, ?p, ?p]"
    by (simp add: numeral_3_eq_3)
  from C8_bounded_retry[OF _ d e2] r2 obtain a2 where a2:
    "removes (snd (safe_remove_file ?w2 ?p 2 default_delay)) = replicate a2 ?p"
    "1 \<le> a2" "int a2 \<le> 2"
    "fst (safe_remove_file ?w2 ?p 2 default_delay) = Inr True \<or>
     fst (safe_remove_file ?w2 ?p 2 default_delay) = Inr False"
    "fst (safe_remove_file ?w2 ?p 2 default_delay) = Inr True \<longrightarrow> False"
    "fst (safe_remove_file ?w2 ?p 2 default_delay) = Inr False \<longrightarrow> int a2 = 2"
    by auto
  from a2(4) a2(5) have f: "fst (safe_remove_file ?w2 ?p 2 default_delay) = Inr False" by auto
  with a2(6) have "a2 = 2" by simp
  with a2(1) have l2: "removes (snd (safe_remove_file ?w2 ?p 2 default_delay)) = [?p, ?p]"
    by (simp add: numeral_2_eq_2)
  from d t l1 f l2 show ?thesis by simp
qed









theorem C5_counterexample:
  "fst (save_processed_data (witness_world (\<lambda>n. True) Write_ok []) ''../flight1'' witness_data) \<and>
   get_data
     (snd (save_processed_data (witness_world (\<lambda>n. True) Write_ok []) ''../flight1'' witness_data))
     ''../flight1'' = (No_route, 404)"
  by (simp add: save_processed_data_def witness_world_def Let_def get_data_def)

lemma collect_types_set: "collect_types ms S = S \<union> get_type ` set ms"
  by (induction ms arbitrary: S) auto

lemma safe_remove_default:
  "safe_remove_file w file_path default_retries default_delay =
     (Inr (remove_ok w file_path (length (removes w))), cleaned w file_path)"
  by (simp add: safe_remove_file_def default_retries_def default_delay_def cleaned_def
        os_remove_def time_sleep_def)

lemma round_opt_no_string: "no_string v \<Longrightarrow> \<exists>y. round_opt v = Inr y \<and> no_string y"
proof (cases v)
  case None
  then show ?thesis by (simp add: round_opt_def)
next
  case (Some x)
  assume "no_string v"
  with Some have "\<not> is_str x" by simp
  then obtain y where "py_round2 x = Inr y" "\<not> is_str y"
    by (induction x rule: py_round2.induct) auto
  with Some show ?thesis by (simp add: round_opt_def)
qed

lemma respond_empty:
  "battery_data res = [] \<Longrightarrow>
     respond w req key T res =
       (Inr (Error_types ''No BAT messages found in the log'' (sorted_types T), 400), w)"
  by (simp add: respond_def)

lemma respond_rounded:
  assumes "battery_data res \<noteq> []"
    and "round_opt (max_voltage res) = Inr mx"
    and "round_opt (min_voltage res) = Inr mn"
    and "round_opt (mean_voltage res) = Inr mean"
  shows "respond w req key T res =
     (let stored =
            \<lparr> s_battery_data = response_data req (battery_data res),
              s_max_voltage = mx,
              s_min_voltage = mn,
              s_mean_voltage = mean,
              s_message_types = sorted_types T,
              s_timestamp = clock w (time_calls w) \<rparr>;
          w1 = w\<lparr>time_calls := Suc (time_calls w)\<rparr>
      in case write_outcome w (data_path key) of
           Write_ok \<Rightarrow>
             (Inr (Upload_ok key (response_data req (battery_data res)) mx mn mean
                     (sorted_types T), 200),
              w1\<lparr>files := (files w)(data_path key \<mapsto> Json stored)\<rparr>)
         | Open_fails \<Rightarrow> (Inr (Error ''Failed to save processed data'', 500), w1)
         | Dump_fails \<Rightarrow>
             (Inr (Error ''Failed to save processed data'', 500),
              w1\<lparr>files := (files w)(data_path key \<mapsto> Corrupt)\<rparr>))"
  using assms
  by (simp add: respond_def response_data_def time_time_def
        save_processed_data_def Let_def split: write_outcome.splits)

lemma upload_try_raises:
  assumes "mavlink_connection w p = Inl e \<or>
           (\<exists>mlog. mavlink_connection w p = Inr mlog) \<and>
           process_battery_data (mavlink_connection w) p = Inl e"
  shows "upload_try w req key p = (Inl e, w)"
  using assms by (auto simp: upload_try_def process_battery_data_def)

lemma upload_try_processed:
  assumes "mavlink_connection w p = Inr mlog"
    and "process_battery_data (mavlink_connection w) p = Inr res"
  shows "upload_try w req key p = respond (cleaned w p) req key (get_type ` set mlog) res"
  using assms by (simp add: upload_try_def safe_remove_default collect_types_set)

lemma upload_bin_raises:
  assumes "file_part req = Some fn" and "fn \<noteq> []" and "temp_save w = Inr p"
    and "mavlink_connection w p = Inl e \<or>
           (\<exists>mlog. mavlink_connection w p = Inr mlog) \<and>
           process_battery_data (mavlink_connection w) p = Inl e"
  shows "upload_bin w req = ((Error_exc ''Error processing file: '' e, 500), after_cleanup w p)"
proof -
  let ?w1 = "w\<lparr>time_calls := Suc (time_calls w)\<rparr>"
  from assms(4) have "mavlink_connection ?w1 p = Inl e \<or>
           (\<exists>mlog. mavlink_connection ?w1 p = Inr mlog) \<and>
           process_battery_data (mavlink_connection ?w1) p = Inl e" by simp
  from upload_try_raises[OF this] have
    "upload_try ?w1 req (request_key w req) p = (Inl e, ?w1)" .
  with assms(1-3) show ?thesis
    by (simp add: upload_bin_def time_time_def request_key_def safe_remove_default
          after_cleanup_def)
qed

lemma upload_bin_processed:
  assumes "file_part req = Some fn" and "fn \<noteq> []" and "temp_save w = Inr p"
    and "mavlink_connection w p = Inr mlog"
    and "process_battery_data (mavlink_connection w) p = Inr res"
    and "respond (after_cleanup w p) req (request_key w req) (get_type ` set mlog) res = (Inr resp, w2)"
  shows "upload_bin w req = (resp, w2)"
proof -
  let ?w1 = "w\<lparr>time_calls := Suc (time_calls w)\<rparr>"
  from assms(4,5) have "mavlink_connection ?w1 p = Inr mlog"
    "process_battery_data (mavlink_connection ?w1) p = Inr res" by simp_all
  from upload_try_processed[OF this] assms(6) have
    "upload_try ?w1 req (request_key w req) p = (Inr resp, w2)"
    by (simp add: after_cleanup_def)
  with assms(1-3) show ?thesis
    by (simp add: upload_bin_def time_time_def request_key_def)
qed

lemma upload_bin_no_bat:
  assumes "file_part req = Some fn" and "fn \<noteq> []" and "temp_save w = Inr p"
    and "mavlink_connection w p = Inr mlog" and "bats mlog = []"
  shows "upload_bin w req =
           ((Error_types ''No BAT messages found in the log'' (sorted_types (get_type ` set mlog)),
             400), after_cleanup w p)"
proof -
  from process_no_bat[of "mavlink_connection w" p mlog, OF assms(4,5)] have
    pr: "process_battery_data (mavlink_connection w) p =
           Inr \<lparr> battery_data = [], max_voltage = None, min_voltage = None, mean_voltage = None \<rparr>" .
  show ?thesis
    by (rule upload_bin_processed[OF assms(1-4) pr]) (simp add: respond_empty)
qed

lemma upload_bin_bat:
  assumes "file_part req = Some fn" and "fn \<noteq> []" and "temp_save w = Inr p"
    and "mavlink_connection w p = Inr mlog"
    and "process_battery_data (mavlink_connection w) p = Inr res"
    and "bats mlog \<noteq> []"
  shows "\<exists>mx mn mean.
     round_opt (max_voltage res) = Inr mx \<and> round_opt (min_voltage res) = Inr mn \<and>
     round_opt (mean_voltage res) = Inr mean \<and>
     upload_bin w req =
     (let key = request_key w req;
          bd = response_data req (battery_data res);
          types = sorted_types (get_type ` set mlog);
          stored =
            \<lparr> s_battery_data = bd, s_max_voltage = mx, s_min_voltage = mn, s_mean_voltage = mean,
              s_message_types = types, s_timestamp = clock w (Suc (time_calls w)) \<rparr>;
          w1 = (after_cleanup w p)\<lparr>time_calls := Suc (Suc (time_calls w))\<rparr>
      in case write_outcome w (data_path key) of
           Write_ok \<Rightarrow>
             ((Upload_ok key bd mx mn mean types, 200),
              w1\<lparr>files := (files w)(data_path key \<mapsto> Json stored)\<rparr>)
         | Open_fails \<Rightarrow> ((Error ''Failed to save processed data'', 500), w1)
         | Dump_fails \<Rightarrow>
             ((Error ''Failed to save processed data'', 500),
              w1\<lparr>files := (files w)(data_path key \<mapsto> Corrupt)\<rparr>))"
proof -
  from process_Inr_aggregates[OF assms(4,5)] assms(6) have
    ne: "battery_data res \<noteq> []"
    and ns: "no_string (max_voltage res)" "no_string (min_voltage res)"
      "no_string (mean_voltage res)"
    by auto
  from round_opt_no_string[OF ns(1)] obtain mx where mx: "round_opt (max_voltage res) = Inr mx"
    by blast
  from round_opt_no_string[OF ns(2)] obtain mn where mn: "round_opt (min_voltage res) = Inr mn"
    by blast
  from round_opt_no_string[OF ns(3)] obtain mean where
    mean: "round_opt (mean_voltage res) = Inr mean" by blast
  note r = respond_rounded[OF ne mx mn mean, of "after_cleanup w p" req "request_key w req"
      "get_type ` set mlog"]
  have "upload_bin w req =
     (let key = request_key w req;
          bd = response_data req (battery_data res);
          types = sorted_types (get_type ` set mlog);
          stored =
            \<lparr> s_battery_data = bd, s_max_voltage = mx, s_min_voltage = mn, s_mean_voltage = mean,
              s_message_types = types, s_timestamp = clock w (Suc (time_calls w)) \<rparr>;
          w1 = (after_cleanup w p)\<lparr>time_calls := Suc (Suc (time_calls w))\<rparr>
      in case write_outcome w (data_path key) of
           Write_ok \<Rightarrow>
             ((Upload_ok key bd mx mn mean types, 200),
              w1\<lparr>files := (files w)(data_path key \<mapsto> Json stored)\<rparr>)
         | Open_fails \<Rightarrow> ((Error ''Failed to save processed data'', 500), w1)
         | Dump_fails \<Rightarrow>
             ((Error ''Failed to save processed data'', 500),
              w1\<lparr>files := (files w)(data_path key \<mapsto> Corrupt)\<rparr>))"
  proof (cases "write_outcome w (data_path (request_key w req))")
    case Write_ok
    show ?thesis
      by (rule trans[OF upload_bin_processed[OF assms(1-5)]], subst r)
         (simp_all add: Write_ok Let_def after_cleanup_def cleaned_def)
  next
    case Open_fails
    show ?thesis
      by (rule trans[OF upload_bin_processed[OF assms(1-5)]], subst r)
         (simp_all add: Open_fails Let_def after_cleanup_def cleaned_def)
  next
    case Dump_fails
    show ?thesis
      by (rule trans[OF upload_bin_processed[OF assms(1-5)]], subst r)
         (simp_all add: Dump_fails Let_def after_cleanup_def cleaned_def)
  qed
  with mx mn mean show ?thesis by blast
qed

lemma sorted_types_list:
  "sorted_types (get_type ` set ms) = sort (remdups (map get_type ms))"
  by (simp only: sorted_types_def image_set sorted_list_of_set_sort_remdups)

lemma witness_world_simps:
  "temp_save (witness_world ok wr mlog) = Inr ''/tmp/tmp1.bin''"
  "mavlink_connection (witness_world ok wr mlog) ''/tmp/tmp1.bin'' = Inr mlog"
  "files (witness_world ok wr mlog) = Map.empty"
  "write_outcome (witness_world ok wr mlog) = (\<lambda>p. wr)"
  "cleanup_calls (witness_world ok wr mlog) = []"
  "removes (witness_world ok wr mlog) = []"
  "time_calls (witness_world ok wr mlog) = 0"
  "clock (witness_world ok wr mlog) = (\<lambda>n. 1700000000 + of_nat n)"
  by (simp_all add: witness_world_def)

lemma witness_request_simps:
  "file_part (witness_request limit full) = Some ''flight.bin''"
  "arg_key (witness_request limit full) = Some ''flight1''"
  "arg_limit (witness_request limit full) = limit"
  "arg_full (witness_request limit full) = full"
  "request_key w (witness_request limit full) = ''flight1''"
  by (simp_all add: witness_request_def request_key_def)

lemma witness_log_types:
  "sorted_types (get_type ` set witness_log) = [''BAT'', ''FMT'']"
  "sorted_types (get_type ` set [fmt_frame]) = [''FMT'']"
  "sorted_types (get_type ` set rounding_log) = [''BAT'', ''FMT'']"
  unfolding sorted_types_list
  by (simp_all add: witness_log_def rounding_log_def bat_frame_def fmt_frame_def get_type_def
        less_eq_char_def)

lemma process_same_log:
  "mc p = Inr mlog \<Longrightarrow> process_battery_data mc p = process_battery_data (log_reader mlog) p"
  by (simp add: process_battery_data_def log_reader_def)

lemma witness_round2: "round2 12 = 12" "round2 11 = 11" "round2 (23 / 2) = 23 / 2"
  by (simp_all add: round2_def double_eval)

text \<open>
  Claim C3, as amended. When a readable log holds no BAT message,
  \<open>process_battery_data\<close> returns an empty result (no record, the three aggregates \<open>None\<close>)
  and does not raise; the upload handler then answers with status 400, the error
  \<open>No BAT messages found in the log\<close> and the sorted message types, and stores nothing.
\<close>

theorem C3_no_bat_is_400:
  assumes "file_part req = Some fn" and "fn \<noteq> []" and "temp_save w = Inr log_path"
    and "mavlink_connection w log_path = Inr mlog" and "bats mlog = []"
  shows "process_battery_data (mavlink_connection w) log_path =
           Inr \<lparr> battery_data = [], max_voltage = None, min_voltage = None, mean_voltage = None \<rparr> \<and>
         fst (upload_bin w req) =
           (Error_types ''No BAT messages found in the log''
              (sorted_list_of_set (get_type ` set mlog)), 400) \<and>
         files (snd (upload_bin w req)) = files w"
proof -
  from process_no_bat[of "mavlink_connection w" log_path mlog, OF assms(4,5)]
  have a: "process_battery_data (mavlink_connection w) log_path =
           Inr \<lparr> battery_data = [], max_voltage = None, min_voltage = None, mean_voltage = None \<rparr>" .
  from upload_bin_no_bat[OF assms] have
    b: "upload_bin w req =
           ((Error_types ''No BAT messages found in the log'' (sorted_types (get_type ` set mlog)),
             400), after_cleanup w log_path)" .
  from a b show ?thesis by (simp add: sorted_types_def after_cleanup_def cleaned_def)
qed

theorem C3_no_bat_is_400_witness:
  "file_part (witness_request None None) = Some ''flight.bin'' \<and>
   temp_save (witness_world (\<lambda>n. True) Write_ok [fmt_frame]) = Inr ''/tmp/tmp1.bin'' \<and>
   mavlink_connection (witness_world (\<lambda>n. True) Write_ok [fmt_frame]) ''/tmp/tmp1.bin''
     = Inr [fmt_frame] \<and>
   bats [fmt_frame] = [] \<and>
   fst (upload_bin (witness_world (\<lambda>n. True) Write_ok [fmt_frame]) (witness_request None None)) =
     (Error_types ''No BAT messages found in the log'' [''FMT''], 400) \<and>
   files (snd (upload_bin (witness_world (\<lambda>n. True) Write_ok [fmt_frame])
             (witness_request None None))) = Map.empty"
proof -
  have t: "sorted_list_of_set (get_type ` set [fmt_frame]) = [''FMT'']"
    using witness_log_types(2) by (simp only: sorted_types_def)
  from C3_no_bat_is_400[of "witness_request None None" "''flight.bin''"
      "witness_world (\<lambda>n. True) Write_ok [fmt_frame]" "''/tmp/tmp1.bin''" "[fmt_frame]"]
    t
  show ?thesis by (simp add: witness_world_simps witness_request_simps witness_log_bats)
qed

theorem C3_counterexample:
  "mavlink_connection (witness_world (\<lambda>n. True) Write_ok [fmt_frame]) ''/tmp/tmp1.bin''
     = Inr [fmt_frame] \<and>
   bats [fmt_frame] = [] \<and>
   fst (upload_bin (witness_world (\<lambda>n. True) Write_ok [fmt_frame]) (witness_request None None)) =
     (Error_types ''No BAT messages found in the log'' [''FMT''], 400)"
proof -
  have "upload_bin (witness_world (\<lambda>n. True) Write_ok [fmt_frame]) (witness_request None None) =
      ((Error_types ''No BAT messages found in the log'' (sorted_types (get_type ` set [fmt_frame])),
        400), after_cleanup (witness_world (\<lambda>n. True) Write_ok [fmt_frame]) ''/tmp/tmp1.bin'')"
    by (rule upload_bin_no_bat[where fn = "''flight.bin''"])
       (simp_all add: witness_world_simps witness_request_simps witness_log_bats)
  then have "upload_bin (witness_world (\<lambda>n. True) Write_ok [fmt_frame]) (witness_request None None) =
      ((Error_types ''No BAT messages found in the log'' [''FMT''], 400),
       after_cleanup (witness_world (\<lambda>n. True) Write_ok [fmt_frame]) ''/tmp/tmp1.bin'')"
    by (simp only: witness_log_types)
  then show ?thesis
    by (simp add: witness_world_simps witness_log_bats)
qed


lemma upload_bin_cleanup_calls:
  assumes "file_part req = Some fn" and "fn \<noteq> []" and "temp_save w = Inr log_path"
  shows "cleanup_calls (snd (upload_bin w req)) = cleanup_calls w @ [log_path] \<and>
         removes (snd (upload_bin w req)) = removes w @ [log_path]"
proof (cases "process_battery_data (mavlink_connection w) log_path")
  case (Inl e)
  then have "mavlink_connection w log_path = Inl e \<or>
           (\<exists>mlog. mavlink_connection w log_path = Inr mlog) \<and>
           process_battery_data (mavlink_connection w) log_path = Inl e"
    by (cases "mavlink_connection w log_path") (auto simp: process_battery_data_def)
  from upload_bin_raises[OF assms this] show ?thesis
    by (simp add: after_cleanup_def cleaned_def)
next
  case (Inr res)
  then obtain mlog where m: "mavlink_connection w log_path = Inr mlog"
    by (cases "mavlink_connection w log_path") (auto simp: process_battery_data_def)
  show ?thesis
  proof (cases "bats mlog = []")
    case True
    from upload_bin_no_bat[OF assms m True] show ?thesis
      by (simp add: after_cleanup_def cleaned_def)
  next
    case False
    from upload_bin_bat[OF assms m Inr False] obtain mx mn mean where
      "upload_bin w req =
     (let key = request_key w req;
          bd = response_data req (battery_data res);
          types = sorted_types (get_type ` set mlog);
          stored =
            \<lparr> s_battery_data = bd, s_max_voltage = mx, s_min_voltage = mn, s_mean_voltage = mean,
              s_message_types = types, s_timestamp = clock w (Suc (time_calls w)) \<rparr>;
          w1 = (after_cleanup w log_path)\<lparr>time_calls := Suc (Suc (time_calls w))\<rparr>
      in case write_outcome w (data_path key) of
           Write_ok \<Rightarrow>
             ((Upload_ok key bd mx mn mean types, 200),
              w1\<lparr>files := (files w)(data_path key \<mapsto> Json stored)\<rparr>)
         | Open_fails \<Rightarrow> ((Error ''Failed to save processed data'', 500), w1)
         | Dump_fails \<Rightarrow>
             ((Error ''Failed to save processed data'', 500),
              w1\<lparr>files := (files w)(data_path key \<mapsto> Corrupt)\<rparr>))" by blast
    then show ?thesis
      by (cases "write_outcome w (data_path (request_key w req))")
         (simp_all add: Let_def after_cleanup_def cleaned_def)
  qed
qed

text \<open>
  Claim C10. For every upload whose file was saved to a temporary path, the handler
  calls \<open>safe_remove_file\<close> on that path exactly once before it returns (which makes one
  call of \<open>os.remove\<close> on it), whatever the answer is; when reading or processing the log
  raises, the answer is the status 500 of the \<open>except\<close> clause, and the call has been
  made there.
\<close>

theorem C10_cleanup_exactly_once:
  assumes "file_part req = Some fn" and "fn \<noteq> []" and "temp_save w = Inr log_path"
  shows "cleanup_calls (snd (upload_bin w req)) = cleanup_calls w @ [log_path] \<and>
         removes (snd (upload_bin w req)) = removes w @ [log_path] \<and>
         (\<forall>e. process_battery_data (mavlink_connection w) log_path = Inl e \<longrightarrow>
            fst (upload_bin w req) = (Error_exc ''Error processing file: '' e, 500))"
proof -
  have "fst (upload_bin w req) = (Error_exc ''Error processing file: '' e, 500)"
    if "process_battery_data (mavlink_connection w) log_path = Inl e" for e
  proof -
    from that have "mavlink_connection w log_path = Inl e \<or>
           (\<exists>mlog. mavlink_connection w log_path = Inr mlog) \<and>
           process_battery_data (mavlink_connection w) log_path = Inl e"
      by (cases "mavlink_connection w log_path") (auto simp: process_battery_data_def)
    from upload_bin_raises[OF assms this] show ?thesis by simp
  qed
  with upload_bin_cleanup_calls[OF assms] show ?thesis by blast
qed


lemma broken_log_process:
  "process_battery_data (\<lambda>p. if p = ''/tmp/tmp1.bin'' then Inr broken_log else Inl OSError)
     ''/tmp/tmp1.bin'' = Inl (AttributeError ''Volt'')"
proof -
  let ?m = "\<lparr> mtype = ''BAT'', attrs = [(''TimeUS'', PInt 2000000), (''Curr'', PFloat (Fin 3))] \<rparr>"
  have e: "bat_entry ?m = Inl (AttributeError ''Volt'')"
    by (simp add: bat_entry_def getattr_def)
  have t: "get_type ?m = ''BAT''" by (simp add: get_type_def)
  show ?thesis
    by (simp add: process_battery_data_def broken_log_def frame_types bat_frame_entry e t)
qed

theorem C10_cleanup_exactly_once_witness:
  "file_part (witness_request None None) = Some ''flight.bin'' \<and>
   temp_save (witness_world (\<lambda>n. True) Write_ok witness_log) = Inr ''/tmp/tmp1.bin'' \<and>
   cleanup_calls (snd (upload_bin (witness_world (\<lambda>n. True) Write_ok witness_log)
       (witness_request None None))) = [''/tmp/tmp1.bin''] \<and>
   cleanup_calls (snd (upload_bin (witness_world (\<lambda>n. False) Write_ok broken_log)
       (witness_request None None))) = [''/tmp/tmp1.bin''] \<and>
   fst (upload_bin (witness_world (\<lambda>n. False) Write_ok broken_log) (witness_request None None))
     = (Error_exc ''Error processing file: '' (AttributeError ''Volt''), 500)"
proof -
  have p: "process_battery_data (mavlink_connection (witness_world (\<lambda>n. False) Write_ok broken_log))
      ''/tmp/tmp1.bin'' = Inl (AttributeError ''Volt'')"
    using broken_log_process by (simp add: witness_world_def)
  from C10_cleanup_exactly_once[of "witness_request None None" "''flight.bin''"
         "witness_world (\<lambda>n. True) Write_ok witness_log" "''/tmp/tmp1.bin''"]
       C10_cleanup_exactly_once[of "witness_request None None" "''flight.bin''"
         "witness_world (\<lambda>n. False) Write_ok broken_log" "''/tmp/tmp1.bin''"] p
  show ?thesis by (simp add: witness_world_simps witness_request_simps)
qed

lemma witness_upload_log:
  assumes "process_battery_data (log_reader mlog) ''/tmp/tmp1.bin'' =
             Inr \<lparr> battery_data = bd, max_voltage = a, min_voltage = b, mean_voltage = c \<rparr>"
    and "bats mlog \<noteq> []"
    and "round_opt a = Inr mx" and "round_opt b = Inr mn" and "round_opt c = Inr mean"
  shows "fst (upload_bin (witness_world ok Write_ok mlog) (witness_request limit full)) =
     (Upload_ok ''flight1'' (response_data (witness_request limit full) bd) mx mn mean
        (sorted_types (get_type ` set mlog)), 200) \<and>
   files (snd (upload_bin (witness_world ok Write_ok mlog) (witness_request limit full)))
     (data_path ''flight1'') =
     Some (Json \<lparr> s_battery_data = response_data (witness_request limit full) bd,
                 s_max_voltage = mx, s_min_voltage = mn, s_mean_voltage = mean,
                 s_message_types = sorted_types (get_type ` set mlog),
                 s_timestamp = 1700000001 \<rparr>)"
proof -
  let ?w = "witness_world ok Write_ok mlog"
  let ?req = "witness_request limit full"
  let ?res = "\<lparr> battery_data = bd, max_voltage = a, min_voltage = b, mean_voltage = c \<rparr>"
  have m: "mavlink_connection ?w ''/tmp/tmp1.bin'' = Inr mlog" by (simp add: witness_world_simps)
  from process_same_log[of "mavlink_connection ?w" "''/tmp/tmp1.bin''" mlog] m assms(1) have
    p: "process_battery_data (mavlink_connection ?w) ''/tmp/tmp1.bin'' = Inr ?res" by simp
  have f: "file_part ?req = Some ''flight.bin''" "''flight.bin'' \<noteq> []"
    "temp_save ?w = Inr ''/tmp/tmp1.bin''"
    by (simp_all add: witness_world_simps witness_request_simps)
  from upload_bin_bat[OF f m p assms(2)] assms(3-5) have
   "upload_bin ?w ?req =
     (let key = request_key ?w ?req;
          bd = response_data ?req (battery_data ?res);
          types = sorted_types (get_type ` set mlog);
          stored =
            \<lparr> s_battery_data = bd, s_max_voltage = mx, s_min_voltage = mn, s_mean_voltage = mean,
              s_message_types = types, s_timestamp = clock ?w (Suc (time_calls ?w)) \<rparr>;
          w1 = (after_cleanup ?w ''/tmp/tmp1.bin'')\<lparr>time_calls := Suc (Suc (time_calls ?w))\<rparr>
      in case write_outcome ?w (data_path key) of
           Write_ok \<Rightarrow>
             ((Upload_ok key bd mx mn mean types, 200),
              w1\<lparr>files := (files ?w)(data_path key \<mapsto> Json stored)\<rparr>)
         | Open_fails \<Rightarrow> ((Error ''Failed to save processed data'', 500), w1)
         | Dump_fails \<Rightarrow>
             ((Error ''Failed to save processed data'', 500),
              w1\<lparr>files := (files ?w)(data_path key \<mapsto> Corrupt)\<rparr>))"
    by auto
  then show ?thesis
    by (simp add: witness_world_simps witness_request_simps Let_def)
qed

lemma witness_upload:
  "fst (upload_bin (witness_world ok Write_ok witness_log) (witness_request limit full)) =
     (Upload_ok ''flight1''
        (response_data (witness_request limit full) [plain_record 1 12 2, plain_record (5 / 2) 11 3])
        (Some (PFloat (Fin 12))) (Some (PFloat (Fin 11))) (Some (PFloat (Fin (23 / 2))))
        [''BAT'', ''FMT''], 200) \<and>
   files (snd (upload_bin (witness_world ok Write_ok witness_log) (witness_request limit full)))
     (data_path ''flight1'') =
     Some (Json \<lparr> s_battery_data =
                   response_data (witness_request limit full)
                     [plain_record 1 12 2, plain_record (5 / 2) 11 3],
                 s_max_voltage = Some (PFloat (Fin 12)), s_min_voltage = Some (PFloat (Fin 11)),
                 s_mean_voltage = Some (PFloat (Fin (23 / 2))),
                 s_message_types = [''BAT'', ''FMT''],
                 s_timestamp = 1700000001 \<rparr>)"
proof -
  have b: "bats witness_log \<noteq> []" by (simp add: witness_log_bats)
  have r: "round_opt (Some (PFloat (Fin 12))) = Inr (Some (PFloat (Fin 12)))"
    "round_opt (Some (PFloat (Fin 11))) = Inr (Some (PFloat (Fin 11)))"
    "round_opt (Some (PFloat (Fin (23 / 2)))) = Inr (Some (PFloat (Fin (23 / 2))))"
    by (simp_all add: round_opt_def witness_round2)
  from witness_upload_log[OF witness_log_process b r, of ok limit full]
  show ?thesis by (simp only: witness_log_types)
qed

lemma upload_bin_outcomes:
  assumes "file_part req = Some fn" and "fn \<noteq> []" and "temp_save w = Inr log_path"
    and "mavlink_connection w log_path = Inr mlog"
  shows "(\<exists>e. process_battery_data (mavlink_connection w) log_path = Inl e \<and>
            fst (upload_bin w req) = (Error_exc ''Error processing file: '' e, 500)) \<or>
         (bats mlog = [] \<and>
            fst (upload_bin w req) =
              (Error_types ''No BAT messages found in the log''
                 (sorted_types (get_type ` set mlog)), 400)) \<or>
         (write_outcome w (data_path (request_key w req)) \<noteq> Write_ok \<and>
            fst (upload_bin w req) = (Error ''Failed to save processed data'', 500)) \<or>
         (\<exists>res mx mn mean. process_battery_data (mavlink_connection w) log_path = Inr res \<and>
            bats mlog \<noteq> [] \<and>
            write_outcome w (data_path (request_key w req)) = Write_ok \<and>
            round_opt (max_voltage res) = Inr mx \<and> round_opt (min_voltage res) = Inr mn \<and>
            round_opt (mean_voltage res) = Inr mean \<and>
            upload_bin w req =
              ((Upload_ok (request_key w req) (response_data req (battery_data res)) mx mn mean
                  (sorted_types (get_type ` set mlog)), 200),
               (after_cleanup w log_path)
                 \<lparr> time_calls := Suc (Suc (time_calls w)),
                   files := (files w)(data_path (request_key w req) \<mapsto>
                     Json \<lparr> s_battery_data = response_data req (battery_data res),
                            s_max_voltage = mx,
                            s_min_voltage = mn,
                            s_mean_voltage = mean,
                            s_message_types = sorted_types (get_type ` set mlog),
                            s_timestamp = clock w (Suc (time_calls w)) \<rparr>) \<rparr>))"
proof (cases "process_battery_data (mavlink_connection w) log_path")
  case (Inl e)
  with assms(4) have "mavlink_connection w log_path = Inl e \<or>
           (\<exists>mlog. mavlink_connection w log_path = Inr mlog) \<and>
           process_battery_data (mavlink_connection w) log_path = Inl e" by simp
  from upload_bin_raises[OF assms(1-3) this] Inl show ?thesis by simp
next
  case (Inr res)
  show ?thesis
  proof (cases "bats mlog = []")
    case True
    from upload_bin_no_bat[OF assms True] True show ?thesis by simp
  next
    case False
    from upload_bin_bat[OF assms Inr False] obtain mx mn mean where
      r: "round_opt (max_voltage res) = Inr mx" "round_opt (min_voltage res) = Inr mn"
        "round_opt (mean_voltage res) = Inr mean"
      and u: "upload_bin w req =
     (let key = request_key w req;
          bd = response_data req (battery_data res);
          types = sorted_types (get_type ` set mlog);
          stored =
            \<lparr> s_battery_data = bd, s_max_voltage = mx, s_min_voltage = mn, s_mean_voltage = mean,
              s_message_types = types, s_timestamp = clock w (Suc (time_calls w)) \<rparr>;
          w1 = (after_cleanup w log_path)\<lparr>time_calls := Suc (Suc (time_calls w))\<rparr>
      in case write_outcome w (data_path key) of
           Write_ok \<Rightarrow>
             ((Upload_ok key bd mx mn mean types, 200),
              w1\<lparr>files := (files w)(data_path key \<mapsto> Json stored)\<rparr>)
         | Open_fails \<Rightarrow> ((Error ''Failed to save processed data'', 500), w1)
         | Dump_fails \<Rightarrow>
             ((Error ''Failed to save processed data'', 500),
              w1\<lparr>files := (files w)(data_path key \<mapsto> Corrupt)\<rparr>))" by blast
    show ?thesis
    proof (cases "write_outcome w (data_path (request_key w req))")
      case Write_ok
      with u Inr False r show ?thesis by (simp add: Let_def)
    next
      case Open_fails
      with u show ?thesis by (simp add: Let_def)
    next
      case Dump_fails
      with u show ?thesis by (simp add: Let_def)
    qed
  qed
qed

text \<open>
  Claim C4. After the handler has read the whole log, the \<open>message_types\<close> it reports are
  the sorted list, without duplicates, of the \<open>get_type()\<close> values of all messages of the
  log: in the answer of a successful upload and in the data stored for it, and in the
  answer for a log without BAT records. When processing does not raise and the data can
  be written, the answer is one of these two.
\<close>

theorem C4_message_types:
  assumes "file_part req = Some fn" and "fn \<noteq> []" and "temp_save w = Inr log_path"
    and "mavlink_connection w log_path = Inr mlog"
  defines "T \<equiv> sorted_list_of_set (get_type ` set mlog)"
  shows "sorted T \<and> distinct T \<and> set T = get_type ` set mlog \<and>
    (\<forall>key bd mx mn mean types st.
       fst (upload_bin w req) = (Upload_ok key bd mx mn mean types, st) \<longrightarrow>
         types = T \<and>
         (\<exists>sd. files (snd (upload_bin w req)) (data_path key) = Some (Json sd) \<and>
               s_message_types sd = T)) \<and>
    (\<forall>msg types st. fst (upload_bin w req) = (Error_types msg types, st) \<longrightarrow> types = T) \<and>
    ((\<exists>res. process_battery_data (mavlink_connection w) log_path = Inr res) \<and>
     write_outcome w (data_path (request_key w req)) = Write_ok \<longrightarrow>
       (\<exists>key bd mx mn mean. fst (upload_bin w req) = (Upload_ok key bd mx mn mean T, 200)) \<or>
       fst (upload_bin w req) = (Error_types ''No BAT messages found in the log'' T, 400))"
proof -
  have T: "sorted_types (get_type ` set mlog) = T" by (simp add: T_def sorted_types_def)
  have s: "sorted T \<and> distinct T \<and> set T = get_type ` set mlog"
    by (simp add: T_def)
  let ?r = "fst (upload_bin w req)"
  from upload_bin_outcomes[OF assms(1-4)] consider
    (raises) e where "process_battery_data (mavlink_connection w) log_path = Inl e"
      "?r = (Error_exc ''Error processing file: '' e, 500)"
  | (no_bat) "?r = (Error_types ''No BAT messages found in the log'' T, 400)"
  | (not_saved) "write_outcome w (data_path (request_key w req)) \<noteq> Write_ok"
      "?r = (Error ''Failed to save processed data'', 500)"
  | (ok) key bd mx mn mean sd where
      "?r = (Upload_ok key bd mx mn mean T, 200)"
      "files (snd (upload_bin w req)) (data_path key) = Some (Json sd)"
      "s_message_types sd = T"
    unfolding T by fastforce
  then have "(\<forall>key bd mx mn mean types st.
       ?r = (Upload_ok key bd mx mn mean types, st) \<longrightarrow>
         types = T \<and>
         (\<exists>sd. files (snd (upload_bin w req)) (data_path key) = Some (Json sd) \<and>
               s_message_types sd = T)) \<and>
    (\<forall>msg types st. ?r = (Error_types msg types, st) \<longrightarrow> types = T) \<and>
    ((\<exists>res. process_battery_data (mavlink_connection w) log_path = Inr res) \<and>
     write_outcome w (data_path (request_key w req)) = Write_ok \<longrightarrow>
       (\<exists>key bd mx mn mean. ?r = (Upload_ok key bd mx mn mean T, 200)) \<or>
       ?r = (Error_types ''No BAT messages found in the log'' T, 400))"
  proof cases
    case raises
    then show ?thesis by simp
  next
    case no_bat
    then show ?thesis by simp
  next
    case not_saved
    then show ?thesis by simp
  next
    case ok
    then show ?thesis by auto
  qed
  with s show ?thesis by blast
qed

theorem C4_message_types_witness:
  "file_part (witness_request None None) = Some ''flight.bin'' \<and>
   temp_save (witness_world (\<lambda>n. True) Write_ok witness_log) = Inr ''/tmp/tmp1.bin'' \<and>
   mavlink_connection (witness_world (\<lambda>n. True) Write_ok witness_log) ''/tmp/tmp1.bin''
     = Inr witness_log \<and>
   sorted_list_of_set (get_type ` set witness_log) = [''BAT'', ''FMT''] \<and>
   (\<exists>sd. files (snd (upload_bin (witness_world (\<lambda>n. True) Write_ok witness_log)
                   (witness_request None None))) (data_path ''flight1'') = Some (Json sd) \<and>
         s_message_types sd = [''BAT'', ''FMT''])"
proof -
  have t: "sorted_list_of_set (get_type ` set witness_log) = [''BAT'', ''FMT'']"
    using witness_log_types(1) by (simp only: sorted_types_def)
  from C4_message_types[of "witness_request None None" "''flight.bin''"
      "witness_world (\<lambda>n. True) Write_ok witness_log" "''/tmp/tmp1.bin''" witness_log]
    witness_upload[of "\<lambda>n. True" None None] t
  show ?thesis by (simp add: witness_world_simps witness_request_simps)
qed

lemma bat_entry_Inr_required:
  assumes "bat_entry m = Inr p"
  shows "is_num (getattr m ''TimeUS'') \<and> hasattr m ''Curr''"
proof -
  from assms obtain t ts c where t: "getattr m ''TimeUS'' = Inr t" "truediv_1e6 t = Inr ts"
    and c: "getattr m ''Curr'' = Inr c"
    by (auto simp: bat_entry_def split: sum.splits)
  from t(2) have "is_num (Inr t)" by (induction t rule: truediv_1e6.induct) auto
  moreover from c have "hasattr m ''Curr''"
    by (auto simp: hasattr_def getattr_def split: option.splits)
  ultimately show ?thesis using t(1) by simp
qed

lemma finite_volts_well_formed:
  assumes "mc log_path = Inr mlog" and "process_battery_data mc log_path = Inr res"
    and "list_all (\<lambda>m. is_finite_float (getattr m ''Volt'')) (bats mlog)"
  shows "\<forall>m\<in>set mlog. get_type m = ''BAT'' \<longrightarrow> well_formed_bat m"
proof (intro ballI impI)
  fix m assume "m \<in> set mlog" and "get_type m = ''BAT''"
  then have m: "m \<in> set (bats mlog)" by (simp add: bats_def)
  then obtain i where i: "i < length (bats mlog)" "bats mlog ! i = m"
    by (auto simp: in_set_conv_nth)
  with process_records[of mc log_path mlog res] assms(1,2) obtain v where
    "bat_entry m = Inr (v, battery_data res ! i)" by auto
  from bat_entry_Inr_required[OF this] m assms(3) show "well_formed_bat m"
    by (simp add: well_formed_bat_def list_all_iff)
qed

lemma process_floats:
  assumes "mc log_path = Inr mlog"
    and "\<forall>m\<in>set mlog. get_type m = ''BAT'' \<longrightarrow> well_formed_bat m"
    and "bats mlog \<noteq> []"
  shows "\<exists>bd. process_battery_data mc log_path =
     Inr \<lparr> battery_data = bd,
           max_voltage = Some (PFloat (Fin (Max (set (bat_volts mlog))))),
           min_voltage = Some (PFloat (Fin (Min (set (bat_volts mlog))))),
           mean_voltage = Some (PFloat (Fin (nearest_double
              (sum_list (bat_volts mlog) / of_nat (length (bat_volts mlog)))))) \<rparr>"
proof -
  from bat_volts_getattr[OF assms(2)] have "length (bat_volts mlog) = length (bats mlog)"
    by (metis length_map)
  with assms(3) have ne: "bat_volts mlog \<noteq> []" by auto
  from process_well_formed[of mc log_path mlog] assms(1,2) obtain bd where
    "process_battery_data mc log_path =
           battery_metrics bd (map (\<lambda>v. PFloat (Fin v)) (bat_volts mlog))" by blast
  with metrics_floats[OF ne, of bd] show ?thesis by auto
qed

lemma round_half_even_nearest: "nearest_hundredth (round_half_even (a * 100)) a"
proof -
  define x where "x = a * 100"
  have f: "of_int \<lfloor>x\<rfloor> \<le> x" "x < of_int \<lfloor>x\<rfloor> + 1" by linarith+
  have "\<bar>of_int (round_half_even x) - x\<bar> < 1 / 2 \<or>
        (\<bar>of_int (round_half_even x) - x\<bar> = 1 / 2 \<and> even (round_half_even x))"
    using f by (auto simp: round_half_even_def Let_def)
  then show ?thesis by (simp add: nearest_hundredth_def x_def)
qed

lemma round_opt_float:
  "round_opt (Some (PFloat (Fin a))) = Inr (Some (PFloat (Fin (round2 a))))"
  by (simp add: round_opt_def)

lemma round_opt_hundredth:
  "round_opt (Some (PFloat (Fin a))) = Inr y \<Longrightarrow>
     \<exists>n. nearest_hundredth n a \<and> y = Some (PFloat (Fin (nearest_double (of_int n / 100))))"
  using round_half_even_nearest[of a] by (auto simp: round_opt_def round2_def)

text \<open>
  Claim C9, as amended. For every successful upload (status 200) the \<open>battery_data\<close> of
  the answer and of the stored data are the same list. It is the first \<open>limit\<close> records
  of the full result, in order, when \<open>limit\<close> is a non-negative integer and \<open>full\<close>,
  put in lower case, is not \<open>true\<close>; for a negative \<open>limit\<close> it is the full result
  without its last \<open>-limit\<close> records; it is the full list when \<open>limit\<close> is absent or \<open>full\<close>
  in lower case is \<open>true\<close>. In every case \<open>max_voltage\<close>, \<open>min_voltage\<close> and \<open>mean_voltage\<close>
  are \<open>round(v, 2)\<close> of the aggregates that \<open>process_battery_data\<close> computed over all BAT
  records of the log. When every BAT message has a finite float \<open>Volt\<close>, they are the
  doubles nearest to a number with two decimals: the one nearest to the maximum of all
  voltages, the one nearest to their minimum, and the one nearest to the double that is
  nearest to their arithmetic mean.
\<close>

theorem C9_limit_keeps_aggregates:
  assumes "file_part req = Some fn" and "fn \<noteq> []" and "temp_save w = Inr log_path"
    and "mavlink_connection w log_path = Inr mlog"
    and "upload_bin w req = ((Upload_ok key bd mx mn mean types, 200), w')"
  defines "full \<equiv> lower (case arg_full req of None \<Rightarrow> ''false'' | Some s \<Rightarrow> s)"
  shows "\<exists>res sd.
    process_battery_data (mavlink_connection w) log_path = Inr res \<and>
    length (battery_data res) = length (bats mlog) \<and>
    files w' (data_path key) = Some (Json sd) \<and>
    s_battery_data sd = bd \<and> s_max_voltage sd = mx \<and> s_min_voltage sd = mn \<and>
    s_mean_voltage sd = mean \<and>
    (\<forall>limit. arg_limit req = Some limit \<and> 0 \<le> limit \<and> full \<noteq> ''true'' \<longrightarrow>
       bd = take (nat limit) (battery_data res)) \<and>
    (\<forall>limit. arg_limit req = Some limit \<and> limit < 0 \<and> full \<noteq> ''true'' \<longrightarrow>
       bd = take (length (battery_data res) - nat (- limit)) (battery_data res)) \<and>
    (arg_limit req = None \<or> full = ''true'' \<longrightarrow> bd = battery_data res) \<and>
    round_opt (max_voltage res) = Inr mx \<and>
    round_opt (min_voltage res) = Inr mn \<and>
    round_opt (mean_voltage res) = Inr mean \<and>
    (list_all (\<lambda>m. is_finite_float (getattr m ''Volt'')) (bats mlog) \<longrightarrow>
       map (\<lambda>v. Inr (PFloat (Fin v))) (bat_volts mlog) =
         map (\<lambda>m. getattr m ''Volt'') (bats mlog) \<and>
       (\<exists>n1 n2 n3.
          nearest_hundredth n1 (Max (set (bat_volts mlog))) \<and>
          mx = Some (PFloat (Fin (nearest_double (of_int n1 / 100)))) \<and>
          nearest_hundredth n2 (Min (set (bat_volts mlog))) \<and>
          mn = Some (PFloat (Fin (nearest_double (of_int n2 / 100)))) \<and>
          nearest_hundredth n3
            (nearest_double (sum_list (bat_volts mlog) / of_nat (length (bat_volts mlog)))) \<and>
          mean = Some (PFloat (Fin (nearest_double (of_int n3 / 100))))))"
proof -
  from upload_bin_outcomes[OF assms(1-4)] assms(5) obtain res mx' mn' mean' where
    p: "process_battery_data (mavlink_connection w) log_path = Inr res"
    and ne: "bats mlog \<noteq> []"
    and r: "round_opt (max_voltage res) = Inr mx'" "round_opt (min_voltage res) = Inr mn'"
      "round_opt (mean_voltage res) = Inr mean'"
    and u: "upload_bin w req =
              ((Upload_ok (request_key w req) (response_data req (battery_data res)) mx' mn' mean'
                  (sorted_types (get_type ` set mlog)), 200),
               (after_cleanup w log_path)
                 \<lparr> time_calls := Suc (Suc (time_calls w)),
                   files := (files w)(data_path (request_key w req) \<mapsto>
                     Json \<lparr> s_battery_data = response_data req (battery_data res),
                            s_max_voltage = mx',
                            s_min_voltage = mn',
                            s_mean_voltage = mean',
                            s_message_types = sorted_types (get_type ` set mlog),
                            s_timestamp = clock w (Suc (time_calls w)) \<rparr>) \<rparr>)"
    by auto
  let ?sd = "\<lparr> s_battery_data = response_data req (battery_data res),
                            s_max_voltage = mx',
                            s_min_voltage = mn',
                            s_mean_voltage = mean',
                            s_message_types = sorted_types (get_type ` set mlog),
                            s_timestamp = clock w (Suc (time_calls w)) \<rparr>"
  from u assms(5) have k: "key = request_key w req"
    and bd: "bd = response_data req (battery_data res)"
    and mx: "mx = mx'" and mn: "mn = mn'" and mean: "mean = mean'"
    and f: "files w' (data_path key) = Some (Json ?sd)"
    by auto
  from process_Inr_aggregates[of "mavlink_connection w" log_path mlog res] assms(4) p have
    len: "length (battery_data res) = length (bats mlog)" by simp
  have cut: "\<forall>limit. arg_limit req = Some limit \<and> 0 \<le> limit \<and> full \<noteq> ''true'' \<longrightarrow>
       bd = take (nat limit) (battery_data res)"
    by (auto simp: bd response_data_def slice_to_def full_def)
  have neg: "\<forall>limit. arg_limit req = Some limit \<and> limit < 0 \<and> full \<noteq> ''true'' \<longrightarrow>
       bd = take (length (battery_data res) - nat (- limit)) (battery_data res)"
    by (auto simp: bd response_data_def slice_to_def full_def)
  have all: "arg_limit req = None \<or> full = ''true'' \<longrightarrow> bd = battery_data res"
    by (auto simp: bd response_data_def full_def)
  have fl: "map (\<lambda>v. Inr (PFloat (Fin v))) (bat_volts mlog) =
         map (\<lambda>m. getattr m ''Volt'') (bats mlog) \<and>
       (\<exists>n1 n2 n3.
          nearest_hundredth n1 (Max (set (bat_volts mlog))) \<and>
          mx = Some (PFloat (Fin (nearest_double (of_int n1 / 100)))) \<and>
          nearest_hundredth n2 (Min (set (bat_volts mlog))) \<and>
          mn = Some (PFloat (Fin (nearest_double (of_int n2 / 100)))) \<and>
          nearest_hundredth n3
            (nearest_double (sum_list (bat_volts mlog) / of_nat (length (bat_volts mlog)))) \<and>
          mean = Some (PFloat (Fin (nearest_double (of_int n3 / 100)))))"
    if v: "list_all (\<lambda>m. is_finite_float (getattr m ''Volt'')) (bats mlog)"
  proof -
    from finite_volts_well_formed[of "mavlink_connection w" log_path mlog res] assms(4) p v have
      wf: "\<forall>m\<in>set mlog. get_type m = ''BAT'' \<longrightarrow> well_formed_bat m" by blast
    from process_floats[of "mavlink_connection w" log_path mlog] assms(4) wf ne p have
      a: "max_voltage res = Some (PFloat (Fin (Max (set (bat_volts mlog)))))"
        "min_voltage res = Some (PFloat (Fin (Min (set (bat_volts mlog)))))"
        "mean_voltage res = Some (PFloat (Fin (nearest_double
              (sum_list (bat_volts mlog) / of_nat (length (bat_volts mlog))))))"
      by auto
    from r(1) a(1) mx round_opt_hundredth obtain n1 where
      n1: "nearest_hundredth n1 (Max (set (bat_volts mlog)))"
        "mx = Some (PFloat (Fin (nearest_double (of_int n1 / 100))))" by metis
    from r(2) a(2) mn round_opt_hundredth obtain n2 where
      n2: "nearest_hundredth n2 (Min (set (bat_volts mlog)))"
        "mn = Some (PFloat (Fin (nearest_double (of_int n2 / 100))))" by metis
    from r(3) a(3) mean round_opt_hundredth obtain n3 where
      n3: "nearest_hundredth n3
            (nearest_double (sum_list (bat_volts mlog) / of_nat (length (bat_volts mlog))))"
        "mean = Some (PFloat (Fin (nearest_double (of_int n3 / 100))))" by metis
    from bat_volts_getattr[OF wf] n1 n2 n3 show ?thesis by blast
  qed
  from p len f bd mx mn mean cut neg all r fl show ?thesis
    by (intro exI[of _ res] exI[of _ ?sd]) simp
qed

lemma rounding_seconds:
  "nearest_double (nearest_double 2000000 / 1000000) = 2"
  "nearest_double (nearest_double 4000000 / 1000000) = 4"
  "nearest_double (nearest_double 5000000 / 1000000) = 5"
  by (simp_all add: double_eval)

lemma rounding_log_bats:
  "bats rounding_log =
     [bat_frame 1000000 12 2, bat_frame 2000000 12 2, bat_frame 3000000 12 2,
      bat_frame 4000000 12 2, bat_frame 5000000 (97 / 8) 2]"
  "bat_volts rounding_log = [12, 12, 12, 12, 97 / 8]"
  by (simp_all add: rounding_log_def bat_volts_def bats_def frame_types List.map_filter_simps
        bat_frame_volt)

lemma rounding_log_mean:
  "nearest_double (481 / 40) = 6769473189891277 / 562949953421312"
  by (simp add: double_eval)

lemma rounding_log_process:
  "process_battery_data (log_reader rounding_log) log_path =
     Inr \<lparr> battery_data =
             [plain_record 1 12 2, plain_record 2 12 2, plain_record 3 12 2, plain_record 4 12 2,
              plain_record 5 (97 / 8) 2],
           max_voltage = Some (PFloat (Fin (97 / 8))), min_voltage = Some (PFloat (Fin 12)),
           mean_voltage = Some (PFloat (Fin (6769473189891277 / 562949953421312))) \<rparr>"
  by (simp add: process_battery_data_def log_reader_def rounding_log_def frame_types
        bat_frame_entry witness_seconds rounding_seconds battery_metrics_def if_nonempty_def
        py_max_def py_min_def py_gt_def statistics_mean_def exact_sum_def Let_def
        rounding_log_mean)

lemma rounding_log_round2:
  "round2 (97 / 8) = 6822953435466301 / 562949953421312"
  "round2 (6769473189891277 / 562949953421312) = 6772287939658383 / 562949953421312"
  by (simp_all add: round2_def double_eval)

lemma rounding_upload:
  "fst (upload_bin (witness_world ok Write_ok rounding_log) (witness_request limit full)) =
     (Upload_ok ''flight1''
        (response_data (witness_request limit full)
           [plain_record 1 12 2, plain_record 2 12 2, plain_record 3 12 2, plain_record 4 12 2,
            plain_record 5 (97 / 8) 2])
        (Some (PFloat (Fin (6822953435466301 / 562949953421312)))) (Some (PFloat (Fin 12)))
        (Some (PFloat (Fin (6772287939658383 / 562949953421312))))
        [''BAT'', ''FMT''], 200)"
proof -
  have b: "bats rounding_log \<noteq> []" by (simp add: rounding_log_bats)
  have r: "round_opt (Some (PFloat (Fin (97 / 8)))) =
             Inr (Some (PFloat (Fin (6822953435466301 / 562949953421312))))"
    "round_opt (Some (PFloat (Fin 12))) = Inr (Some (PFloat (Fin 12)))"
    "round_opt (Some (PFloat (Fin (6769473189891277 / 562949953421312)))) =
       Inr (Some (PFloat (Fin (6772287939658383 / 562949953421312))))"
    by (simp_all add: round_opt_float witness_round2 rounding_log_round2)
  from witness_upload_log[OF rounding_log_process b r, of ok limit full]
  show ?thesis by (simp only: witness_log_types)
qed

theorem C9_limit_keeps_aggregates_witness:
  "file_part (witness_request (Some 2) None) = Some ''flight.bin'' \<and>
   temp_save (witness_world (\<lambda>n. True) Write_ok rounding_log) = Inr ''/tmp/tmp1.bin'' \<and>
   mavlink_connection (witness_world (\<lambda>n. True) Write_ok rounding_log) ''/tmp/tmp1.bin''
     = Inr rounding_log \<and>
   arg_limit (witness_request (Some 2) None) = Some 2 \<and>
   lower ''false'' \<noteq> ''true'' \<and>
   list_all (\<lambda>m. is_finite_float (getattr m ''Volt'')) (bats rounding_log) \<and>
   bat_volts rounding_log = [12, 12, 12, 12, 97 / 8] \<and>
   fst (upload_bin (witness_world (\<lambda>n. True) Write_ok rounding_log) (witness_request (Some 2) None))
     = (Upload_ok ''flight1'' [plain_record 1 12 2, plain_record 2 12 2]
          (Some (PFloat (Fin (6822953435466301 / 562949953421312)))) (Some (PFloat (Fin 12)))
          (Some (PFloat (Fin (6772287939658383 / 562949953421312)))) [''BAT'', ''FMT''], 200) \<and>
   (\<exists>res. process_battery_data
            (mavlink_connection (witness_world (\<lambda>n. True) Write_ok rounding_log))
            ''/tmp/tmp1.bin'' = Inr res \<and>
          length (battery_data res) = 5 \<and>
          [plain_record 1 12 2, plain_record 2 12 2] = take 2 (battery_data res) \<and>
          round_opt (mean_voltage res) =
            Inr (Some (PFloat (Fin (6772287939658383 / 562949953421312))))) \<and>
   (\<exists>n3. \<bar>of_int n3 - nearest_double (481 / 40) * 100\<bar> \<le> 1 / 2 \<and>
      nearest_double (of_int n3 / 100) = 6772287939658383 / 562949953421312)"
proof -
  let ?w = "witness_world (\<lambda>n. True) Write_ok rounding_log"
  let ?req = "witness_request (Some 2) None"
  let ?mx = "Some (PFloat (Fin (6822953435466301 / 562949953421312)))"
  let ?mean = "Some (PFloat (Fin (6772287939658383 / 562949953421312)))"
  have l: "lower ''false'' \<noteq> ''true''" by (simp add: lower_def lower_char_def)
  have rd: "response_data ?req
              [plain_record 1 12 2, plain_record 2 12 2, plain_record 3 12 2, plain_record 4 12 2,
               plain_record 5 (97 / 8) 2] = [plain_record 1 12 2, plain_record 2 12 2]"
    using l by (simp add: response_data_def witness_request_simps slice_to_def)
  have fv: "list_all (\<lambda>m. is_finite_float (getattr m ''Volt'')) (bats rounding_log)"
    by (simp add: rounding_log_bats bat_frame_def getattr_def)
  from rounding_upload[of "\<lambda>n. True" "Some 2" None] rd have
    f: "fst (upload_bin ?w ?req) =
          (Upload_ok ''flight1'' [plain_record 1 12 2, plain_record 2 12 2]
             ?mx (Some (PFloat (Fin 12))) ?mean [''BAT'', ''FMT''], 200)"
    by simp
  then have e: "upload_bin ?w ?req =
          ((Upload_ok ''flight1'' [plain_record 1 12 2, plain_record 2 12 2]
             ?mx (Some (PFloat (Fin 12))) ?mean [''BAT'', ''FMT''], 200),
           snd (upload_bin ?w ?req))"
    by (metis prod.collapse)
  from C9_limit_keeps_aggregates[of ?req "''flight.bin''" ?w "''/tmp/tmp1.bin''" rounding_log
         "''flight1''" "[plain_record 1 12 2, plain_record 2 12 2]" ?mx "Some (PFloat (Fin 12))"
         ?mean "[''BAT'', ''FMT'']" "snd (upload_bin ?w ?req)", OF _ _ _ _ e]
  obtain res n3 where
    p: "process_battery_data (mavlink_connection ?w) ''/tmp/tmp1.bin'' = Inr res"
      "length (battery_data res) = length (bats rounding_log)"
      "[plain_record 1 12 2, plain_record 2 12 2] = take 2 (battery_data res)"
      "round_opt (mean_voltage res) = Inr ?mean"
    and n: "nearest_hundredth n3
       (nearest_double (sum_list (bat_volts rounding_log) /
          of_nat (length (bat_volts rounding_log))))"
      "?mean = Some (PFloat (Fin (nearest_double (of_int n3 / 100))))"
    using l fv by (auto simp: witness_world_simps witness_request_simps)
  from p have a: "\<exists>res. process_battery_data (mavlink_connection ?w) ''/tmp/tmp1.bin'' = Inr res \<and>
          length (battery_data res) = 5 \<and>
          [plain_record 1 12 2, plain_record 2 12 2] = take 2 (battery_data res) \<and>
          round_opt (mean_voltage res) = Inr ?mean"
    by (intro exI[of _ res]) (simp add: rounding_log_bats)
  from n(1) have "\<bar>of_int n3 - nearest_double (481 / 40) * 100\<bar> \<le> 1 / 2"
    by (auto simp: rounding_log_bats nearest_hundredth_def)
  moreover from n(2) have "nearest_double (of_int n3 / 100) = 6772287939658383 / 562949953421312"
    by simp
  ultimately have b: "\<exists>n3. \<bar>of_int n3 - nearest_double (481 / 40) * 100\<bar> \<le> 1 / 2 \<and>
         nearest_double (of_int n3 / 100) = 6772287939658383 / 562949953421312"
    by blast
  have c: "bat_volts rounding_log = [12, 12, 12, 12, 97 / 8]" by (simp add: rounding_log_bats)
  from a b c f l fv show ?thesis
    by (simp only: witness_world_simps witness_request_simps) simp
qed

theorem C9_counterexample:
  "arg_limit (witness_request (Some 1) (Some ''TRUE'')) = Some 1 \<and>
   arg_full (witness_request (Some 1) (Some ''TRUE'')) = Some ''TRUE'' \<and>
   ''TRUE'' \<noteq> ''true'' \<and>
   fst (upload_bin (witness_world (\<lambda>n. True) Write_ok witness_log)
          (witness_request (Some 1) (Some ''TRUE'')))
     = (Upload_ok ''flight1'' [plain_record 1 12 2, plain_record (5 / 2) 11 3]
          (Some (PFloat (Fin 12))) (Some (PFloat (Fin 11))) (Some (PFloat (Fin (23 / 2))))
          [''BAT'', ''FMT''], 200) \<and>
   [plain_record 1 12 2, plain_record (5 / 2) 11 3]
     \<noteq> take 1 [plain_record 1 12 2, plain_record (5 / 2) 11 3] \<and>
   arg_limit (witness_request (Some (- 1)) None) = Some (- 1) \<and>
   fst (upload_bin (witness_world (\<lambda>n. True) Write_ok witness_log)
          (witness_request (Some (- 1)) None))
     = (Upload_ok ''flight1'' [plain_record 1 12 2]
          (Some (PFloat (Fin 12))) (Some (PFloat (Fin 11))) (Some (PFloat (Fin (23 / 2))))
          [''BAT'', ''FMT''], 200) \<and>
   [plain_record 1 12 2] \<noteq> take (nat (- 1)) [plain_record 1 12 2, plain_record (5 / 2) 11 3]"
proof -
  have r1: "response_data (witness_request (Some 1) (Some ''TRUE''))
              [plain_record 1 12 2, plain_record (5 / 2) 11 3]
            = [plain_record 1 12 2, plain_record (5 / 2) 11 3]"
    by (simp add: response_data_def witness_request_simps lower_def lower_char_def)
  have r2: "response_data (witness_request (Some (- 1)) None)
              [plain_record 1 12 2, plain_record (5 / 2) 11 3]
            = [plain_record 1 12 2]"
    by (simp add: response_data_def witness_request_simps lower_def lower_char_def slice_to_def)
  from witness_upload[of "\<lambda>n. True" "Some 1" "Some ''TRUE''"]
       witness_upload[of "\<lambda>n. True" "Some (- 1)" None] r1 r2
  show ?thesis by (simp add: witness_request_simps)
qed

end
